theory Spec2Isabelle
  imports Main "HOL-Library.Word"
begin

unbundle bit_operations_syntax

section \<open>Data model\<close>

text \<open>
  The benchmark programs \<^verbatim>\<open>ara_gemmini_compare.c\<close> and
  \<^verbatim>\<open>ara_gemmini_scalar_compare.c\<close> work on two kinds of buffers: flat arrays of
  \<^verbatim>\<open>int32_t\<close> reached through pointers, and square \<^verbatim>\<open>elem_t[DIM][DIM]\<close>
  matrices. The flat arrays live in an explicit store of 32-bit cells, addressed by element
  index, so that pointer arithmetic (\<^verbatim>\<open>x += vl\<close>) and aliasing are visible.
  A matrix is a list of rows. Arithmetic on \<^verbatim>\<open>int32_t\<close> is two's complement
  with wrap-around, which is what the RV64 target computes; \<^verbatim>\<open>size_t\<close> and
  \<^verbatim>\<open>uint64_t\<close> are 64 bits wide.

  \<^verbatim>\<open>include/gemmini_testutils.h\<close> is generated by the hardware build and is not part
  of the sources. The tile dimension \<^verbatim>\<open>DIM\<close> it defines is a parameter \<open>DIM\<close> of
  every function that uses it; \<^verbatim>\<open>elem_t\<close> is \<^verbatim>\<open>int8_t\<close>, as the sources say
  ("INT8 matrices for Gemmini", "Saturate to int8 range").
\<close>

type_synonym int32 = "32 word"
type_synonym uint64 = "64 word"
type_synonym elem_t = "8 word"
type_synonym memory = "nat \<Rightarrow> int32"
type_synonym matrix = "elem_t list list"

definition is_matrix :: "nat \<Rightarrow> matrix \<Rightarrow> bool" where
  "is_matrix DIM mat \<longleftrightarrow> length mat = DIM \<and> list_all (\<lambda>row. length row = DIM) mat"

definition TEST_DIM :: nat where "TEST_DIM = 16"
definition VEC_LEN :: nat where "VEC_LEN = 256"
definition MAT_SIZE :: nat where "MAT_SIZE = TEST_DIM * TEST_DIM"

section \<open>Matrix and vector initialisation\<close>

text \<open>
  \<^verbatim>\<open>mat[i][j] = ((seed + i * DIM + j) % 16) - 8;\<close> with \<^verbatim>\<open>uint32_t seed\<close> and
  \<^verbatim>\<open>size_t i, j\<close>: the expression is computed in 64-bit unsigned arithmetic and the
  result is converted to \<^verbatim>\<open>elem_t\<close> by truncation.
\<close>

definition init_int8_cell :: "nat \<Rightarrow> 32 word \<Rightarrow> nat \<Rightarrow> nat \<Rightarrow> elem_t" where
  "init_int8_cell DIM seed i j =
     ucast (((ucast seed + word_of_nat i * word_of_nat DIM + word_of_nat j) mod 16 - 8) :: 64 word)"

function init_matrix_int8_j :: "nat \<Rightarrow> 32 word \<Rightarrow> nat \<Rightarrow> nat \<Rightarrow> matrix \<Rightarrow> matrix" where
  "init_matrix_int8_j DIM seed i j mat =
     (if j < DIM
      then init_matrix_int8_j DIM seed i (Suc j) (mat[i := (mat ! i)[j := init_int8_cell DIM seed i j]])
      else mat)"
  by pat_completeness auto
termination
  by (relation "measure (\<lambda>(DIM, seed, i, j, mat). DIM - j)") auto

declare init_matrix_int8_j.simps [simp del]

function init_matrix_int8_i :: "nat \<Rightarrow> 32 word \<Rightarrow> nat \<Rightarrow> matrix \<Rightarrow> matrix" where
  "init_matrix_int8_i DIM seed i mat =
     (if i < DIM then init_matrix_int8_i DIM seed (Suc i) (init_matrix_int8_j DIM seed i 0 mat)
      else mat)"
  by pat_completeness auto
termination
  by (relation "measure (\<lambda>(DIM, seed, i, mat). DIM - i)") auto

declare init_matrix_int8_i.simps [simp del]

definition init_matrix_int8 :: "nat \<Rightarrow> matrix \<Rightarrow> 32 word \<Rightarrow> matrix" where
  "init_matrix_int8 DIM mat seed = init_matrix_int8_i DIM seed 0 mat"

text \<open>\<^verbatim>\<open>mat[i] = ((seed + i) % 64) - 32;\<close>\<close>

definition init_int32_cell :: "32 word \<Rightarrow> nat \<Rightarrow> int32" where
  "init_int32_cell seed i = ucast (((ucast seed + word_of_nat i) mod 64 - 32) :: 64 word)"

function init_matrix_int32_loop :: "nat \<Rightarrow> nat \<Rightarrow> 32 word \<Rightarrow> nat \<Rightarrow> memory \<Rightarrow> memory" where
  "init_matrix_int32_loop mat sz seed i m =
     (if i < sz then init_matrix_int32_loop mat sz seed (Suc i) (m(mat + i := init_int32_cell seed i))
      else m)"
  by pat_completeness auto
termination
  by (relation "measure (\<lambda>(mat, sz, seed, i, m). sz - i)") auto

declare init_matrix_int32_loop.simps [simp del]

definition init_matrix_int32 :: "nat \<Rightarrow> nat \<Rightarrow> 32 word \<Rightarrow> memory \<Rightarrow> memory" where
  "init_matrix_int32 mat sz seed m = init_matrix_int32_loop mat sz seed 0 m"

text \<open>\<^verbatim>\<open>vec[i] = ((seed + i) % 100) - 50;\<close>\<close>

definition init_vector_cell :: "32 word \<Rightarrow> nat \<Rightarrow> int32" where
  "init_vector_cell seed i = ucast (((ucast seed + word_of_nat i) mod 100 - 50) :: 64 word)"

function init_vector_int32_loop :: "nat \<Rightarrow> nat \<Rightarrow> 32 word \<Rightarrow> nat \<Rightarrow> memory \<Rightarrow> memory" where
  "init_vector_int32_loop vec len seed i m =
     (if i < len then init_vector_int32_loop vec len seed (Suc i) (m(vec + i := init_vector_cell seed i))
      else m)"
  by pat_completeness auto
termination
  by (relation "measure (\<lambda>(vec, len, seed, i, m). len - i)") auto

declare init_vector_int32_loop.simps [simp del]

definition init_vector_int32 :: "nat \<Rightarrow> nat \<Rightarrow> 32 word \<Rightarrow> memory \<Rightarrow> memory" where
  "init_vector_int32 vec len seed m = init_vector_int32_loop vec len seed 0 m"

text \<open>\<^verbatim>\<open>mat[i][j] = 0;\<close> and \<^verbatim>\<open>mat[i] = 0;\<close>\<close>

function zero_matrix_int8_j :: "nat \<Rightarrow> nat \<Rightarrow> nat \<Rightarrow> matrix \<Rightarrow> matrix" where
  "zero_matrix_int8_j DIM i j mat =
     (if j < DIM then zero_matrix_int8_j DIM i (Suc j) (mat[i := (mat ! i)[j := 0]]) else mat)"
  by pat_completeness auto
termination
  by (relation "measure (\<lambda>(DIM, i, j, mat). DIM - j)") auto

declare zero_matrix_int8_j.simps [simp del]

function zero_matrix_int8_i :: "nat \<Rightarrow> nat \<Rightarrow> matrix \<Rightarrow> matrix" where
  "zero_matrix_int8_i DIM i mat =
     (if i < DIM then zero_matrix_int8_i DIM (Suc i) (zero_matrix_int8_j DIM i 0 mat) else mat)"
  by pat_completeness auto
termination
  by (relation "measure (\<lambda>(DIM, i, mat). DIM - i)") auto

declare zero_matrix_int8_i.simps [simp del]

definition zero_matrix_int8 :: "nat \<Rightarrow> matrix \<Rightarrow> matrix" where
  "zero_matrix_int8 DIM mat = zero_matrix_int8_i DIM 0 mat"

function zero_matrix_int32_loop :: "nat \<Rightarrow> nat \<Rightarrow> nat \<Rightarrow> memory \<Rightarrow> memory" where
  "zero_matrix_int32_loop mat sz i m =
     (if i < sz then zero_matrix_int32_loop mat sz (Suc i) (m(mat + i := 0)) else m)"
  by pat_completeness auto
termination
  by (relation "measure (\<lambda>(mat, sz, i, m). sz - i)") auto

declare zero_matrix_int32_loop.simps [simp del]

definition zero_matrix_int32 :: "nat \<Rightarrow> nat \<Rightarrow> memory \<Rightarrow> memory" where
  "zero_matrix_int32 mat sz m = zero_matrix_int32_loop mat sz 0 m"

section \<open>Scalar kernels\<close>

subsection \<open>SAXPY\<close>

text \<open>
  \<^verbatim>\<open>for (size_t i = 0; i < n; i++) y[i] = a * x[i] + y[i];\<close>
\<close>

function scalar_saxpy_loop :: "int32 \<Rightarrow> nat \<Rightarrow> nat \<Rightarrow> nat \<Rightarrow> nat \<Rightarrow> memory \<Rightarrow> memory" where
  "scalar_saxpy_loop a x y n i m =
     (if i < n then scalar_saxpy_loop a x y n (Suc i) (m(y + i := a * m (x + i) + m (y + i)))
      else m)"
  by pat_completeness auto
termination
  by (relation "measure (\<lambda>(a, x, y, n, i, m). n - i)") auto

declare scalar_saxpy_loop.simps [simp del]

definition scalar_saxpy :: "int32 \<Rightarrow> nat \<Rightarrow> nat \<Rightarrow> nat \<Rightarrow> memory \<Rightarrow> memory" where
  "scalar_saxpy a x y n m = scalar_saxpy_loop a x y n 0 m"

subsection \<open>Matrix multiply\<close>

text \<open>
  \<^verbatim>\<open>scalar_matmul_int32\<close>: \<^verbatim>\<open>int64_t sum = 0; sum += (int64_t)A[i*N+k] * (int64_t)B[k*N+j];
  C[i*N+j] = (int32_t)sum;\<close>
\<close>

function scalar_matmul_int32_k ::
  "nat \<Rightarrow> nat \<Rightarrow> nat \<Rightarrow> nat \<Rightarrow> nat \<Rightarrow> nat \<Rightarrow> 64 word \<Rightarrow> memory \<Rightarrow> 64 word" where
  "scalar_matmul_int32_k A B N i j k acc m =
     (if k < N
      then scalar_matmul_int32_k A B N i j (Suc k)
             (acc + scast (m (A + (i * N + k))) * scast (m (B + (k * N + j)))) m
      else acc)"
  by pat_completeness auto
termination
  by (relation "measure (\<lambda>(A, B, N, i, j, k, acc, m). N - k)") auto

declare scalar_matmul_int32_k.simps [simp del]

function scalar_matmul_int32_j :: "nat \<Rightarrow> nat \<Rightarrow> nat \<Rightarrow> nat \<Rightarrow> nat \<Rightarrow> nat \<Rightarrow> memory \<Rightarrow> memory" where
  "scalar_matmul_int32_j A B C N i j m =
     (if j < N
      then scalar_matmul_int32_j A B C N i (Suc j)
             (m(C + (i * N + j) := ucast (scalar_matmul_int32_k A B N i j 0 0 m)))
      else m)"
  by pat_completeness auto
termination
  by (relation "measure (\<lambda>(A, B, C, N, i, j, m). N - j)") auto

declare scalar_matmul_int32_j.simps [simp del]

function scalar_matmul_int32_i :: "nat \<Rightarrow> nat \<Rightarrow> nat \<Rightarrow> nat \<Rightarrow> nat \<Rightarrow> memory \<Rightarrow> memory" where
  "scalar_matmul_int32_i A B C N i m =
     (if i < N then scalar_matmul_int32_i A B C N (Suc i) (scalar_matmul_int32_j A B C N i 0 m)
      else m)"
  by pat_completeness auto
termination
  by (relation "measure (\<lambda>(A, B, C, N, i, m). N - i)") auto

declare scalar_matmul_int32_i.simps [simp del]

definition scalar_matmul_int32 :: "nat \<Rightarrow> nat \<Rightarrow> nat \<Rightarrow> nat \<Rightarrow> memory \<Rightarrow> memory" where
  "scalar_matmul_int32 A B C N m = scalar_matmul_int32_i A B C N 0 m"

text \<open>
  \<^verbatim>\<open>scalar_matmul_int8\<close>: \<^verbatim>\<open>int32_t sum = 0; sum += (int32_t)A[i][k] * (int32_t)B[k][j];
  if (sum > 127) sum = 127; if (sum < -128) sum = -128; C[i][j] = (elem_t)sum;\<close>
\<close>

function scalar_matmul_int8_k ::
  "nat \<Rightarrow> matrix \<Rightarrow> matrix \<Rightarrow> nat \<Rightarrow> nat \<Rightarrow> nat \<Rightarrow> int32 \<Rightarrow> int32" where
  "scalar_matmul_int8_k DIM A B i j k acc =
     (if k < DIM
      then scalar_matmul_int8_k DIM A B i j (Suc k) (acc + scast (A ! i ! k) * scast (B ! k ! j))
      else acc)"
  by pat_completeness auto
termination
  by (relation "measure (\<lambda>(DIM, A, B, i, j, k, acc). DIM - k)") auto

declare scalar_matmul_int8_k.simps [simp del]

definition saturate_int8 :: "int32 \<Rightarrow> elem_t" where
  "saturate_int8 acc =
     (let acc = (if 127 <s acc then 127 else acc);
          acc = (if acc <s - 128 then - 128 else acc)
      in ucast acc)"

function scalar_matmul_int8_j ::
  "nat \<Rightarrow> matrix \<Rightarrow> matrix \<Rightarrow> nat \<Rightarrow> nat \<Rightarrow> matrix \<Rightarrow> matrix" where
  "scalar_matmul_int8_j DIM A B i j C =
     (if j < DIM
      then scalar_matmul_int8_j DIM A B i (Suc j)
             (C[i := (C ! i)[j := saturate_int8 (scalar_matmul_int8_k DIM A B i j 0 0)]])
      else C)"
  by pat_completeness auto
termination
  by (relation "measure (\<lambda>(DIM, A, B, i, j, C). DIM - j)") auto

declare scalar_matmul_int8_j.simps [simp del]

function scalar_matmul_int8_i :: "nat \<Rightarrow> matrix \<Rightarrow> matrix \<Rightarrow> nat \<Rightarrow> matrix \<Rightarrow> matrix" where
  "scalar_matmul_int8_i DIM A B i C =
     (if i < DIM then scalar_matmul_int8_i DIM A B (Suc i) (scalar_matmul_int8_j DIM A B i 0 C)
      else C)"
  by pat_completeness auto
termination
  by (relation "measure (\<lambda>(DIM, A, B, i, C). DIM - i)") auto

declare scalar_matmul_int8_i.simps [simp del]

definition scalar_matmul_int8 :: "nat \<Rightarrow> matrix \<Rightarrow> matrix \<Rightarrow> matrix \<Rightarrow> matrix" where
  "scalar_matmul_int8 DIM A B C = scalar_matmul_int8_i DIM A B 0 C"

section \<open>Vector SAXPY on the vector unit\<close>

text \<open>
  The kernel is a sequence of RVV instructions in inline assembly. The instruction set is
  not part of the repository, so the instructions are given their architectural meaning on
  the active elements (the first \<open>vl\<close> elements of a register group), and the vector
  length the hardware grants for a requested length is a parameter \<open>vsetvli\<close> of the
  kernel.
\<close>

definition vle32 :: "memory \<Rightarrow> nat \<Rightarrow> nat \<Rightarrow> int32 list" where
  \<comment> \<open>Modelled from the spec: unit-stride load of \<open>vl\<close> 32-bit elements starting at \<open>p\<close>.\<close>
  "vle32 m p vl = map (\<lambda>i. m (p + i)) [0..<vl]"

definition vmul_vx :: "int32 list \<Rightarrow> int32 \<Rightarrow> int32 list" where
  \<comment> \<open>Modelled from the spec: every active element times a broadcast scalar, low 32 bits.\<close>
  "vmul_vx v a = map (\<lambda>e. a * e) v"

definition vadd_vv :: "int32 list \<Rightarrow> int32 list \<Rightarrow> int32 list" where
  \<comment> \<open>Modelled from the spec: element-wise wrapping addition.\<close>
  "vadd_vv v w = map (\<lambda>(e, f). e + f) (zip v w)"

fun vse32 :: "memory \<Rightarrow> nat \<Rightarrow> int32 list \<Rightarrow> memory" where
  \<comment> \<open>Modelled from the spec: unit-stride store of the active elements starting at \<open>p\<close>.\<close>
  "vse32 m p [] = m"
| "vse32 m p (e # es) = vse32 (m(p := e)) (Suc p) es"

text \<open>
  \<^verbatim>\<open>while (n > 0) { vl = vsetvli(n); v1 = x[0..vl); v2 = y[0..vl); v3 = a * v1;
  v2 = v3 + v2; y[0..vl) = v2; x += vl; y += vl; n -= vl; }\<close>
  The loop runs for as long as the hardware says; it is a partial function, \<open>None\<close>
  standing for a run that never leaves the loop. \<^verbatim>\<open>n -= vl\<close> is a
  \<^verbatim>\<open>size_t\<close> subtraction and wraps modulo \<open>2 ^ 64\<close>.
\<close>

partial_function (option) ara_vector_saxpy ::
  "(nat \<Rightarrow> nat) \<Rightarrow> int32 \<Rightarrow> nat \<Rightarrow> nat \<Rightarrow> nat \<Rightarrow> memory \<Rightarrow> memory option" where
  "ara_vector_saxpy vsetvli a x y n m =
     (if 0 < n then
        (let vl = vsetvli n;
             v1 = vle32 m x vl;
             v2 = vle32 m y vl;
             v3 = vmul_vx v1 a;
             v2' = vadd_vv v3 v2;
             m' = vse32 m y v2'
         in ara_vector_saxpy vsetvli a (x + vl) (y + vl) ((n + 2 ^ 64 - vl) mod 2 ^ 64) m')
      else Some m)"

section \<open>Machine, console and accelerator interface\<close>

text \<open>
  The console is the list of the lines printed so far, restricted to the lines that carry a
  computed value or a verdict; headings and rules are left out.

  The programs divide unsigned 64-bit cycle counts. Such a division by zero is undefined in
  C; the RV64 division instruction does not trap, so the program goes on. The model keeps
  the missing quotient as the error value \<open>DivisionByZero\<close>.
\<close>

datatype error = DivisionByZero

definition udiv64 :: "uint64 \<Rightarrow> uint64 \<Rightarrow> error + uint64" where
  "udiv64 a b = (if b = 0 then Inl DivisionByZero else Inr (a div b))"

definition umod64 :: "error + uint64 \<Rightarrow> uint64 \<Rightarrow> error + uint64" where
  "umod64 q b = (case q of Inl e \<Rightarrow> Inl e | Inr v \<Rightarrow> if b = 0 then Inl DivisionByZero else Inr (v mod b))"

datatype line =
    Cycles uint64
  | Instructions uint64
  | Ops_per_cycle_x1000 "error + uint64"
  | Matrix_mismatch nat nat int int
  | Vector_mismatch nat int int
  | Results_match
  | Mismatch_warning
  | Verification_passed
  | Verification_failed int
  | Test_passed
  | Speedup "error + uint64"
  | Speedup_tenths "error + uint64" "error + uint64"
  | All_tests_passed
  | Some_tests_failed

text \<open>
  The accelerator is driven by the macros of \<^verbatim>\<open>gemmini.h\<close>, which is not part of the
  sources. Each macro issues one command; the model records the commands issued, in order.
\<close>

datatype matrix_id = Mat_A | Mat_B | Mat_C

datatype dataflow = OUTPUT_STATIONARY | WEIGHT_STATIONARY

datatype gemmini_op =
    Flush nat
  | Config_ld nat
  | Config_st nat
  | Mvin matrix_id nat
  | Config_ex dataflow nat nat
  | Preload_zeros nat
  | Compute_preloaded nat nat
  | Mvout matrix_id nat
  | Fence

text \<open>The static arrays of the programs and the machine state they run on.\<close>

record globals =
  gemmini_A :: matrix
  gemmini_B :: matrix
  gemmini_C :: matrix
  gemmini_ref :: matrix
  mem :: memory
  console :: "line list"
  mstatus :: uint64
  mcycle_reads :: nat
  minstret_reads :: nat
  rocc :: "gemmini_op list"

text \<open>Where the linker put the flat \<^verbatim>\<open>int32_t\<close> arrays (element addresses in \<open>mem\<close>).\<close>

record layout =
  scalar_A :: nat
  scalar_B :: nat
  scalar_C :: nat
  vec_x :: nat
  vec_y :: nat
  vec_ref :: nat

text \<open>
  What the platform answers: the value of the \<open>k\<close>-th read of each counter, the vector
  length granted by \<^verbatim>\<open>vsetvli\<close> for a requested length (e32, m1), the matrix the
  systolic array delivers for two operand matrices, and the store the vector unit delivers
  at the end of a kernel for which the vector architecture prescribes a given store (the
  identity on a unit that conforms to the architecture). Both coprocessors are outside the
  repository; the programs exist to check what they deliver against the scalar core.
\<close>

record hardware =
  hw_mcycle :: "nat \<Rightarrow> uint64"
  hw_minstret :: "nat \<Rightarrow> uint64"
  hw_vsetvli :: "nat \<Rightarrow> nat"
  hw_matmul :: "matrix \<Rightarrow> matrix \<Rightarrow> matrix"
  hw_vector_result :: "memory \<Rightarrow> memory"

definition print :: "line \<Rightarrow> globals \<Rightarrow> globals" where
  "print ln g = g\<lparr>console := console g @ [ln]\<rparr>"

definition read_csr_mcycle :: "hardware \<Rightarrow> globals \<Rightarrow> uint64 \<times> globals" where
  "read_csr_mcycle hw g = (hw_mcycle hw (mcycle_reads g), g\<lparr>mcycle_reads := Suc (mcycle_reads g)\<rparr>)"

definition read_csr_minstret :: "hardware \<Rightarrow> globals \<Rightarrow> uint64 \<times> globals" where
  "read_csr_minstret hw g =
     (hw_minstret hw (minstret_reads g), g\<lparr>minstret_reads := Suc (minstret_reads g)\<rparr>)"

definition enable_vector_extension :: "globals \<Rightarrow> globals" where
  "enable_vector_extension g = g\<lparr>mstatus := mstatus g OR push_bit 9 1\<rparr>"

definition issue :: "gemmini_op \<Rightarrow> globals \<Rightarrow> globals" where
  "issue op g = g\<lparr>rocc := rocc g @ [op]\<rparr>"

definition gemmini_flush :: "nat \<Rightarrow> globals \<Rightarrow> globals" where
  "gemmini_flush skip g = issue (Flush skip) g"

definition gemmini_config_ld :: "nat \<Rightarrow> globals \<Rightarrow> globals" where
  "gemmini_config_ld stride g = issue (Config_ld stride) g"

definition gemmini_config_st :: "nat \<Rightarrow> globals \<Rightarrow> globals" where
  "gemmini_config_st stride g = issue (Config_st stride) g"

definition gemmini_mvin :: "matrix_id \<Rightarrow> nat \<Rightarrow> globals \<Rightarrow> globals" where
  "gemmini_mvin src sp g = issue (Mvin src sp) g"

definition gemmini_config_ex :: "dataflow \<Rightarrow> nat \<Rightarrow> nat \<Rightarrow> globals \<Rightarrow> globals" where
  "gemmini_config_ex df act shift g = issue (Config_ex df act shift) g"

definition gemmini_preload_zeros :: "nat \<Rightarrow> globals \<Rightarrow> globals" where
  "gemmini_preload_zeros sp g = issue (Preload_zeros sp) g"

definition gemmini_compute_preloaded :: "nat \<Rightarrow> nat \<Rightarrow> globals \<Rightarrow> globals" where
  "gemmini_compute_preloaded a_sp b_sp g = issue (Compute_preloaded a_sp b_sp) g"

definition gemmini_mvout :: "hardware \<Rightarrow> nat \<Rightarrow> globals \<Rightarrow> globals" where
  \<comment> \<open>Modelled from the spec: the move-out of the result tile into \<^verbatim>\<open>gemmini_C\<close>; the
      data is whatever the array computed from the two operands.\<close>
  "gemmini_mvout hw sp g =
     (issue (Mvout Mat_C sp) g)\<lparr>gemmini_C := hw_matmul hw (gemmini_A g) (gemmini_B g)\<rparr>"

definition gemmini_fence :: "globals \<Rightarrow> globals" where
  "gemmini_fence g = issue Fence g"

definition sizeof_elem_t :: nat where
  "sizeof_elem_t = 1"

text \<open>
  The state at program start: static storage is zero-initialised, nothing has been printed
  or issued, no counter has been read.
\<close>

definition boot :: "nat \<Rightarrow> globals" where
  "boot DIM =
     \<lparr>gemmini_A = replicate DIM (replicate DIM 0),
      gemmini_B = replicate DIM (replicate DIM 0),
      gemmini_C = replicate DIM (replicate DIM 0),
      gemmini_ref = replicate DIM (replicate DIM 0),
      mem = (\<lambda>q. 0),
      console = [],
      mstatus = 0,
      mcycle_reads = 0,
      minstret_reads = 0,
      rocc = []\<rparr>"

section \<open>Verification loops\<close>

text \<open>
  \<^verbatim>\<open>for (size_t i = 0; i < DIM && errors < 5; i++)
    for (size_t j = 0; j < DIM && errors < 5; j++) {
      int diff = (int)gemmini_C[i][j] - (int)gemmini_ref[i][j];
      if (diff < -1 || diff > 1) { printf(...); errors++; } }\<close>
  The loop state is the local \<^verbatim>\<open>errors\<close> and the console.
\<close>

function gemmini_verify_j ::
  "nat \<Rightarrow> matrix \<Rightarrow> matrix \<Rightarrow> nat \<Rightarrow> nat \<Rightarrow> int \<times> line list \<Rightarrow> int \<times> line list" where
  "gemmini_verify_j DIM C R i j st =
     (if j < DIM \<and> fst st < 5
      then (let diff = sint (C ! i ! j) - sint (R ! i ! j)
            in gemmini_verify_j DIM C R i (Suc j)
                 (if diff < - 1 \<or> diff > 1
                  then (fst st + 1, snd st @ [Matrix_mismatch i j (sint (C ! i ! j)) (sint (R ! i ! j))])
                  else st))
      else st)"
  by pat_completeness auto
termination
  by (relation "measure (\<lambda>(DIM, C, R, i, j, st). DIM - j)") auto

declare gemmini_verify_j.simps [simp del]

function gemmini_verify_i ::
  "nat \<Rightarrow> matrix \<Rightarrow> matrix \<Rightarrow> nat \<Rightarrow> int \<times> line list \<Rightarrow> int \<times> line list" where
  "gemmini_verify_i DIM C R i st =
     (if i < DIM \<and> fst st < 5
      then gemmini_verify_i DIM C R (Suc i) (gemmini_verify_j DIM C R i 0 st)
      else st)"
  by pat_completeness auto
termination
  by (relation "measure (\<lambda>(DIM, C, R, i, st). DIM - i)") auto

declare gemmini_verify_i.simps [simp del]

definition gemmini_verify :: "nat \<Rightarrow> globals \<Rightarrow> int \<times> globals" where
  "gemmini_verify DIM g =
     (let (errors, out) = gemmini_verify_i DIM (gemmini_C g) (gemmini_ref g) 0 (0, console g)
      in (errors, g\<lparr>console := out\<rparr>))"

text \<open>
  \<^verbatim>\<open>for (size_t i = 0; i < VEC_LEN && errors < 5; i++)
    if (vec_y[i] != vec_ref[i]) { printf(...); errors++; }\<close>
\<close>

function ara_verify_loop ::
  "nat \<Rightarrow> nat \<Rightarrow> memory \<Rightarrow> nat \<Rightarrow> int \<times> line list \<Rightarrow> int \<times> line list" where
  "ara_verify_loop y r m i st =
     (if i < VEC_LEN \<and> fst st < 5
      then ara_verify_loop y r m (Suc i)
             (if m (y + i) \<noteq> m (r + i)
              then (fst st + 1, snd st @ [Vector_mismatch i (sint (m (y + i))) (sint (m (r + i)))])
              else st)
      else st)"
  by pat_completeness auto
termination
  by (relation "measure (\<lambda>(y, r, m, i, st). VEC_LEN - i)") auto

declare ara_verify_loop.simps [simp del]

section \<open>The two-engine program (\<^verbatim>\<open>ara_gemmini_compare.c\<close>)\<close>

definition on_mem :: "(memory \<Rightarrow> memory) \<Rightarrow> globals \<Rightarrow> globals" where
  "on_mem f g = g\<lparr>mem := f (mem g)\<rparr>"

definition test_scalar_matmul :: "hardware \<Rightarrow> layout \<Rightarrow> globals \<Rightarrow> int \<times> globals" where
  "test_scalar_matmul hw L g =
     (let g = on_mem (init_matrix_int32 (scalar_A L) MAT_SIZE 0xABCD) g;
          g = on_mem (init_matrix_int32 (scalar_B L) MAT_SIZE 0x1234) g;
          g = on_mem (zero_matrix_int32 (scalar_C L) MAT_SIZE) g;
          (start_cycles, g) = read_csr_mcycle hw g;
          (start_instrs, g) = read_csr_minstret hw g;
          g = on_mem (scalar_matmul_int32 (scalar_A L) (scalar_B L) (scalar_C L) TEST_DIM) g;
          (end_cycles, g) = read_csr_mcycle hw g;
          (end_instrs, g) = read_csr_minstret hw g;
          cycles = end_cycles - start_cycles;
          instrs = end_instrs - start_instrs;
          g = print (Cycles cycles) g;
          g = print (Instructions instrs) g;
          ops_x1000 = udiv64 (word_of_nat (2 * TEST_DIM * TEST_DIM * TEST_DIM * 1000)) cycles;
          g = print (Ops_per_cycle_x1000 ops_x1000) g;
          g = print Test_passed g
      in (0, g))"

definition test_gemmini_matmul :: "nat \<Rightarrow> hardware \<Rightarrow> globals \<Rightarrow> int \<times> globals" where
  "test_gemmini_matmul DIM hw g =
     (let g = gemmini_flush 0 g;
          g = g\<lparr>gemmini_A := init_matrix_int8 DIM (gemmini_A g) 0x5678\<rparr>;
          g = g\<lparr>gemmini_B := init_matrix_int8 DIM (gemmini_B g) 0x9ABC\<rparr>;
          g = g\<lparr>gemmini_C := zero_matrix_int8 DIM (gemmini_C g)\<rparr>;
          g = g\<lparr>gemmini_ref := zero_matrix_int8 DIM (gemmini_ref g)\<rparr>;
          (ref_start, g) = read_csr_mcycle hw g;
          g = g\<lparr>gemmini_ref := scalar_matmul_int8 DIM (gemmini_A g) (gemmini_B g) (gemmini_ref g)\<rparr>;
          (ref_end, g) = read_csr_mcycle hw g;
          g = print (Cycles (ref_end - ref_start)) g;
          A_sp_addr = 0;
          B_sp_addr = DIM;
          C_sp_addr = 2 * DIM;
          (start_cycles, g) = read_csr_mcycle hw g;
          (start_instrs, g) = read_csr_minstret hw g;
          g = gemmini_config_ld (DIM * sizeof_elem_t) g;
          g = gemmini_config_st (DIM * sizeof_elem_t) g;
          g = gemmini_mvin Mat_A A_sp_addr g;
          g = gemmini_mvin Mat_B B_sp_addr g;
          g = gemmini_config_ex OUTPUT_STATIONARY 0 0 g;
          g = gemmini_preload_zeros C_sp_addr g;
          g = gemmini_compute_preloaded A_sp_addr B_sp_addr g;
          g = gemmini_mvout hw C_sp_addr g;
          g = gemmini_fence g;
          (end_cycles, g) = read_csr_mcycle hw g;
          (end_instrs, g) = read_csr_minstret hw g;
          cycles = end_cycles - start_cycles;
          instrs = end_instrs - start_instrs;
          g = print (Cycles cycles) g;
          g = print (Instructions instrs) g;
          gemmini_ops_x1000 = udiv64 (word_of_nat (2 * DIM * DIM * DIM * 1000)) cycles;
          g = print (Ops_per_cycle_x1000 gemmini_ops_x1000) g;
          (errors, g) = gemmini_verify DIM g;
          g = (if errors = 0 then print Results_match g else print Mismatch_warning g);
          g = print Test_passed g
      in (0, g))"

definition test_performance_comparison ::
  "nat \<Rightarrow> hardware \<Rightarrow> layout \<Rightarrow> globals \<Rightarrow> int \<times> globals" where
  "test_performance_comparison DIM hw L g =
     (let g = on_mem (init_matrix_int32 (scalar_A L) MAT_SIZE 0x1111) g;
          g = on_mem (init_matrix_int32 (scalar_B L) MAT_SIZE 0x2222) g;
          g = on_mem (zero_matrix_int32 (scalar_C L) MAT_SIZE) g;
          (scalar_start, g) = read_csr_mcycle hw g;
          g = on_mem (scalar_matmul_int32 (scalar_A L) (scalar_B L) (scalar_C L) TEST_DIM) g;
          (scalar_end, g) = read_csr_mcycle hw g;
          scalar_cycles = scalar_end - scalar_start;
          g = gemmini_flush 0 g;
          g = g\<lparr>gemmini_A := init_matrix_int8 DIM (gemmini_A g) 0x3333\<rparr>;
          g = g\<lparr>gemmini_B := init_matrix_int8 DIM (gemmini_B g) 0x4444\<rparr>;
          g = g\<lparr>gemmini_C := zero_matrix_int8 DIM (gemmini_C g)\<rparr>;
          A_sp = 0;
          B_sp = DIM;
          C_sp = 2 * DIM;
          (gemmini_start, g) = read_csr_mcycle hw g;
          g = gemmini_config_ld (DIM * sizeof_elem_t) g;
          g = gemmini_config_st (DIM * sizeof_elem_t) g;
          g = gemmini_mvin Mat_A A_sp g;
          g = gemmini_mvin Mat_B B_sp g;
          g = gemmini_config_ex OUTPUT_STATIONARY 0 0 g;
          g = gemmini_preload_zeros C_sp g;
          g = gemmini_compute_preloaded A_sp B_sp g;
          g = gemmini_mvout hw C_sp g;
          g = gemmini_fence g;
          (gemmini_end, g) = read_csr_mcycle hw g;
          gemmini_cycles = gemmini_end - gemmini_start;
          g = print (Cycles scalar_cycles) g;
          g = print (Cycles gemmini_cycles) g;
          speedup = udiv64 scalar_cycles gemmini_cycles;
          g = print (Speedup speedup) g
      in (0, g))"

text \<open>
  \<^verbatim>\<open>int result = 0; result |= test_scalar_matmul(); result |= test_gemmini_matmul();
  result |= test_performance_comparison(); ... exit(result);\<close>
  The programs are built with \<^verbatim>\<open>BAREMETAL\<close>, so the \<^verbatim>\<open>mlockall\<close> branch is not
  compiled. The first component of the result is the exit code.
\<close>

definition main_compare :: "nat \<Rightarrow> hardware \<Rightarrow> layout \<Rightarrow> globals \<Rightarrow> int \<times> globals" where
  "main_compare DIM hw L g =
     (let result = 0;
          (r, g) = test_scalar_matmul hw L g;
          result = result OR r;
          (r, g) = test_gemmini_matmul DIM hw g;
          result = result OR r;
          (r, g) = test_performance_comparison DIM hw L g;
          result = result OR r;
          g = (if result = 0 then print All_tests_passed g else print Some_tests_failed g)
      in (result, g))"

section \<open>The three-engine program (\<^verbatim>\<open>ara_gemmini_scalar_compare.c\<close>)\<close>

function copy_loop :: "nat \<Rightarrow> nat \<Rightarrow> nat \<Rightarrow> nat \<Rightarrow> memory \<Rightarrow> memory" where
  \<comment> \<open>\<^verbatim>\<open>for (size_t i = 0; i < VEC_LEN; i++) vec_ref[i] = vec_y[i];\<close>\<close>
  "copy_loop dst src n i m =
     (if i < n then copy_loop dst src n (Suc i) (m(dst + i := m (src + i))) else m)"
  by pat_completeness auto
termination
  by (relation "measure (\<lambda>(dst, src, n, i, m). n - i)") auto

declare copy_loop.simps [simp del]

definition test_scalar_performance :: "hardware \<Rightarrow> layout \<Rightarrow> globals \<Rightarrow> int \<times> globals" where
  "test_scalar_performance hw L g =
     (let g = on_mem (init_vector_int32 (vec_x L) VEC_LEN 0xABCD) g;
          g = on_mem (init_vector_int32 (vec_y L) VEC_LEN 0x1234) g;
          alpha = 3;
          (start, g) = read_csr_mcycle hw g;
          g = on_mem (scalar_saxpy alpha (vec_x L) (vec_y L) VEC_LEN) g;
          (end', g) = read_csr_mcycle hw g;
          g = print (Cycles (end' - start)) g;
          g = on_mem (init_matrix_int32 (scalar_A L) MAT_SIZE 0x5678) g;
          g = on_mem (init_matrix_int32 (scalar_B L) MAT_SIZE 0x9ABC) g;
          g = on_mem (zero_matrix_int32 (scalar_C L) MAT_SIZE) g;
          (start, g) = read_csr_mcycle hw g;
          g = on_mem (scalar_matmul_int32 (scalar_A L) (scalar_B L) (scalar_C L) TEST_DIM) g;
          (end', g) = read_csr_mcycle hw g;
          g = print (Cycles (end' - start)) g
      in (0, g))"

text \<open>
  \<^verbatim>\<open>test_ara_performance\<close> runs the vector kernel, which may not return; \<open>None\<close> is a
  run that stays in the kernel's loop. When the kernel returns, memory holds what the
  platform's vector unit delivered for the store \<open>m\<close> that \<open>ara_vector_saxpy\<close> prescribes;
  the same holds for the kernel call in \<^verbatim>\<open>test_comparison\<close>.
\<close>

definition test_ara_performance :: "hardware \<Rightarrow> layout \<Rightarrow> globals \<Rightarrow> (int \<times> globals) option" where
  "test_ara_performance hw L g =
     (let g = enable_vector_extension g;
          g = on_mem (init_vector_int32 (vec_x L) VEC_LEN 0xABCD) g;
          g = on_mem (init_vector_int32 (vec_y L) VEC_LEN 0x1234) g;
          alpha = 3;
          g = on_mem (copy_loop (vec_ref L) (vec_y L) VEC_LEN 0) g;
          g = on_mem (scalar_saxpy alpha (vec_x L) (vec_ref L) VEC_LEN) g;
          g = on_mem (init_vector_int32 (vec_y L) VEC_LEN 0x1234) g;
          (start, g) = read_csr_mcycle hw g
      in case ara_vector_saxpy (hw_vsetvli hw) alpha (vec_x L) (vec_y L) VEC_LEN (mem g) of
           None \<Rightarrow> None
         | Some m \<Rightarrow>
            (let g = g\<lparr>mem := hw_vector_result hw m\<rparr>;
                 (end', g) = read_csr_mcycle hw g;
                 g = print (Cycles (end' - start)) g;
                 (errors, out) = ara_verify_loop (vec_y L) (vec_ref L) (mem g) 0 (0, console g);
                 g = g\<lparr>console := out\<rparr>
             in if errors = 0 then Some (0, print Verification_passed g)
                else Some (1, print (Verification_failed errors) g)))"

definition test_gemmini_performance :: "nat \<Rightarrow> hardware \<Rightarrow> globals \<Rightarrow> int \<times> globals" where
  "test_gemmini_performance DIM hw g =
     (let g = gemmini_flush 0 g;
          g = g\<lparr>gemmini_A := init_matrix_int8 DIM (gemmini_A g) 0x5678\<rparr>;
          g = g\<lparr>gemmini_B := init_matrix_int8 DIM (gemmini_B g) 0x9ABC\<rparr>;
          g = g\<lparr>gemmini_C := zero_matrix_int8 DIM (gemmini_C g)\<rparr>;
          g = g\<lparr>gemmini_ref := zero_matrix_int8 DIM (gemmini_ref g)\<rparr>;
          (ref_start, g) = read_csr_mcycle hw g;
          g = g\<lparr>gemmini_ref := scalar_matmul_int8 DIM (gemmini_A g) (gemmini_B g) (gemmini_ref g)\<rparr>;
          (ref_end, g) = read_csr_mcycle hw g;
          g = print (Cycles (ref_end - ref_start)) g;
          A_sp = 0;
          B_sp = DIM;
          C_sp = 2 * DIM;
          (start, g) = read_csr_mcycle hw g;
          g = gemmini_config_ld (DIM * sizeof_elem_t) g;
          g = gemmini_config_st (DIM * sizeof_elem_t) g;
          g = gemmini_mvin Mat_A A_sp g;
          g = gemmini_mvin Mat_B B_sp g;
          g = gemmini_config_ex OUTPUT_STATIONARY 0 0 g;
          g = gemmini_preload_zeros C_sp g;
          g = gemmini_compute_preloaded A_sp B_sp g;
          g = gemmini_mvout hw C_sp g;
          g = gemmini_fence g;
          (end', g) = read_csr_mcycle hw g;
          g = print (Cycles (end' - start)) g;
          (errors, g) = gemmini_verify DIM g;
          g = (if errors = 0 then print Verification_passed g else g)
      in (0, g))"

definition test_comparison ::
  "nat \<Rightarrow> hardware \<Rightarrow> layout \<Rightarrow> globals \<Rightarrow> (int \<times> globals) option" where
  "test_comparison DIM hw L g =
     (let g = on_mem (init_vector_int32 (vec_x L) VEC_LEN 0x1111) g;
          g = on_mem (init_vector_int32 (vec_y L) VEC_LEN 0x2222) g;
          (start, g) = read_csr_mcycle hw g;
          g = on_mem (scalar_saxpy 5 (vec_x L) (vec_y L) VEC_LEN) g;
          (now, g) = read_csr_mcycle hw g;
          scalar_saxpy_cycles = now - start;
          g = on_mem (init_vector_int32 (vec_y L) VEC_LEN 0x2222) g;
          (start, g) = read_csr_mcycle hw g
      in case ara_vector_saxpy (hw_vsetvli hw) 5 (vec_x L) (vec_y L) VEC_LEN (mem g) of
           None \<Rightarrow> None
         | Some m \<Rightarrow>
            (let g = g\<lparr>mem := hw_vector_result hw m\<rparr>;
                 (now, g) = read_csr_mcycle hw g;
                 ara_saxpy_cycles = now - start;
                 g = on_mem (init_matrix_int32 (scalar_A L) MAT_SIZE 0x3333) g;
                 g = on_mem (init_matrix_int32 (scalar_B L) MAT_SIZE 0x4444) g;
                 g = on_mem (zero_matrix_int32 (scalar_C L) MAT_SIZE) g;
                 (start, g) = read_csr_mcycle hw g;
                 g = on_mem (scalar_matmul_int32 (scalar_A L) (scalar_B L) (scalar_C L) TEST_DIM) g;
                 (now, g) = read_csr_mcycle hw g;
                 scalar_matmul_cycles = now - start;
                 g = gemmini_flush 0 g;
                 g = g\<lparr>gemmini_A := init_matrix_int8 DIM (gemmini_A g) 0x5555\<rparr>;
                 g = g\<lparr>gemmini_B := init_matrix_int8 DIM (gemmini_B g) 0x6666\<rparr>;
                 g = g\<lparr>gemmini_C := zero_matrix_int8 DIM (gemmini_C g)\<rparr>;
                 A_sp = 0;
                 B_sp = DIM;
                 C_sp = 2 * DIM;
                 (start, g) = read_csr_mcycle hw g;
                 g = gemmini_config_ld (DIM * sizeof_elem_t) g;
                 g = gemmini_config_st (DIM * sizeof_elem_t) g;
                 g = gemmini_mvin Mat_A A_sp g;
                 g = gemmini_mvin Mat_B B_sp g;
                 g = gemmini_config_ex OUTPUT_STATIONARY 0 0 g;
                 g = gemmini_preload_zeros C_sp g;
                 g = gemmini_compute_preloaded A_sp B_sp g;
                 g = gemmini_mvout hw C_sp g;
                 g = gemmini_fence g;
                 (now, g) = read_csr_mcycle hw g;
                 gemmini_matmul_cycles = now - start;
                 g = print (Cycles scalar_saxpy_cycles) g;
                 g = print (Cycles ara_saxpy_cycles) g;
                 g = print (Speedup_tenths (udiv64 scalar_saxpy_cycles ara_saxpy_cycles)
                             (umod64 (udiv64 (scalar_saxpy_cycles * 10) ara_saxpy_cycles) 10)) g;
                 g = print (Cycles scalar_matmul_cycles) g;
                 g = print (Cycles gemmini_matmul_cycles) g;
                 g = print (Speedup (udiv64 scalar_matmul_cycles gemmini_matmul_cycles)) g
             in Some (0, g)))"

definition main_scalar_compare ::
  "nat \<Rightarrow> hardware \<Rightarrow> layout \<Rightarrow> globals \<Rightarrow> (int \<times> globals) option" where
  "main_scalar_compare DIM hw L g =
     (let result = 0;
          (r, g) = test_scalar_performance hw L g;
          result = result OR r
      in case test_ara_performance hw L g of
           None \<Rightarrow> None
         | Some (r, g) \<Rightarrow>
            (let result = result OR r;
                 (r, g) = test_gemmini_performance DIM hw g;
                 result = result OR r
             in case test_comparison DIM hw L g of
                  None \<Rightarrow> None
                | Some (r, g) \<Rightarrow>
                   (let result = result OR r;
                        g = (if result = 0 then print All_tests_passed g
                             else print Some_tests_failed g)
                    in Some (result, g))))"

section \<open>Example platforms\<close>

text \<open>
  Concrete platforms and a concrete memory layout, used to run the programs on explicit
  inputs: a cycle counter that advances by 100 between two reads and one that does not
  advance at all (a degenerate simulation), an accelerator that computes the saturated
  product exactly and one that delivers an all-zero tile, and a vector unit with 128
  elements of 32 bits per register (VLEN = 4096) that conforms to the architecture. A second
  vector unit loses the data of the store to the first element of \<^verbatim>\<open>vec_y\<close>.
\<close>

definition ticking :: "nat \<Rightarrow> uint64" where
  "ticking k = word_of_nat (100 * k)"

definition frozen :: "nat \<Rightarrow> uint64" where
  "frozen k = 0"

definition ideal_matmul :: "matrix \<Rightarrow> matrix \<Rightarrow> matrix" where
  "ideal_matmul A B =
     scalar_matmul_int8 (length A) A B (replicate (length A) (replicate (length A) 0))"

definition zero_matmul :: "matrix \<Rightarrow> matrix \<Rightarrow> matrix" where
  "zero_matmul A B = replicate (length A) (replicate (length A) 0)"

definition platform :: "(nat \<Rightarrow> uint64) \<Rightarrow> (matrix \<Rightarrow> matrix \<Rightarrow> matrix) \<Rightarrow> hardware" where
  "platform clock array =
     \<lparr>hw_mcycle = clock, hw_minstret = clock, hw_vsetvli = (\<lambda>avl. min avl 128),
      hw_matmul = array, hw_vector_result = (\<lambda>m. m)\<rparr>"

definition example_layout :: layout where
  "example_layout =
     \<lparr>scalar_A = 0, scalar_B = 256, scalar_C = 512, vec_x = 768, vec_y = 1024, vec_ref = 1280\<rparr>"

definition lossy_vector_store :: "memory \<Rightarrow> memory" where
  "lossy_vector_store m = m(vec_y example_layout := 0)"

section \<open>Reference descriptions\<close>

text \<open>
  Closed forms the theorems compare the code with. \<open>saxpy_spec\<close> is the store after a
  SAXPY over \<open>n\<close> elements.
\<close>

definition saxpy_spec :: "int32 \<Rightarrow> nat \<Rightarrow> nat \<Rightarrow> nat \<Rightarrow> memory \<Rightarrow> memory" where
  "saxpy_spec a x y n m =
     (\<lambda>q. if y \<le> q \<and> q < y + n then a * m (x + (q - y)) + m q else m q)"

text \<open>
  \<open>fill_matrix DIM f\<close> is the \<open>DIM \<times> DIM\<close> matrix whose cell \<open>(i, j)\<close> is \<open>f i j\<close>.
  \<open>fill_i\<close> and \<open>fill_j\<close> are the two nested loops that write \<open>f i j\<close> into every
  cell of a buffer, the shape shared by the initialisation and the matrix multiply loops.
\<close>

definition fill_matrix :: "nat \<Rightarrow> (nat \<Rightarrow> nat \<Rightarrow> elem_t) \<Rightarrow> matrix" where
  "fill_matrix DIM f = map (\<lambda>i. map (\<lambda>j. f i j) [0..<DIM]) [0..<DIM]"

function fill_j :: "nat \<Rightarrow> (nat \<Rightarrow> nat \<Rightarrow> elem_t) \<Rightarrow> nat \<Rightarrow> nat \<Rightarrow> matrix \<Rightarrow> matrix" where
  "fill_j DIM f i j mat =
     (if j < DIM then fill_j DIM f i (Suc j) (mat[i := (mat ! i)[j := f i j]]) else mat)"
  by pat_completeness auto
termination
  by (relation "measure (\<lambda>(DIM, f, i, j, mat). DIM - j)") auto

declare fill_j.simps [simp del]

function fill_i :: "nat \<Rightarrow> (nat \<Rightarrow> nat \<Rightarrow> elem_t) \<Rightarrow> nat \<Rightarrow> matrix \<Rightarrow> matrix" where
  "fill_i DIM f i mat =
     (if i < DIM then fill_i DIM f (Suc i) (fill_j DIM f i 0 mat) else mat)"
  by pat_completeness auto
termination
  by (relation "measure (\<lambda>(DIM, f, i, mat). DIM - i)") auto

declare fill_i.simps [simp del]

text \<open>The contents of a flat buffer of \<open>len\<close> elements at address \<open>p\<close>.\<close>

definition buffer :: "memory \<Rightarrow> nat \<Rightarrow> nat \<Rightarrow> int32 list" where
  "buffer m p len = map (\<lambda>k. m (p + k)) [0..<len]"

text \<open>
  The cells of a \<open>DIM \<times> DIM\<close> matrix in row-major order, the cells where the result
  differs from the reference by more than the tolerance of 1, and the console line that
  reports such a cell.
\<close>

definition row_cells :: "nat \<Rightarrow> nat \<Rightarrow> nat \<Rightarrow> (nat \<times> nat) list" where
  "row_cells DIM i j = map (\<lambda>c. (i, c)) [j..<DIM]"

definition cells_from :: "nat \<Rightarrow> nat \<Rightarrow> (nat \<times> nat) list" where
  "cells_from DIM i = concat (map (\<lambda>r. row_cells DIM r 0) [i..<DIM])"

definition mismatch :: "matrix \<Rightarrow> matrix \<Rightarrow> nat \<times> nat \<Rightarrow> bool" where
  "mismatch C R = (\<lambda>(i, j). 1 < \<bar>sint (C ! i ! j) - sint (R ! i ! j)\<bar>)"

definition mismatches :: "nat \<Rightarrow> matrix \<Rightarrow> matrix \<Rightarrow> (nat \<times> nat) list" where
  "mismatches DIM C R = filter (mismatch C R) (cells_from DIM 0)"

definition report :: "matrix \<Rightarrow> matrix \<Rightarrow> nat \<times> nat \<Rightarrow> line" where
  "report C R = (\<lambda>(i, j). Matrix_mismatch i j (sint (C ! i ! j)) (sint (R ! i ! j)))"

text \<open>
  The cells at which the accelerator result and the scalar reference differ by more than the
  tolerance when a Gemmini test starts from state \<open>g\<close> with operand seeds \<open>sa\<close> and
  \<open>sb\<close>.
\<close>

definition gemmini_test_mismatches ::
  "nat \<Rightarrow> hardware \<Rightarrow> 32 word \<Rightarrow> 32 word \<Rightarrow> globals \<Rightarrow> (nat \<times> nat) list" where
  "gemmini_test_mismatches DIM hw sa sb g =
     (let A = init_matrix_int8 DIM (gemmini_A g) sa;
          B = init_matrix_int8 DIM (gemmini_B g) sb;
          R = scalar_matmul_int8 DIM A B (zero_matrix_int8 DIM (gemmini_ref g))
      in mismatches DIM (hw_matmul hw A B) R)"

text \<open>
  The accelerator protocol after the flush, in the order the specification gives it, with
  operand \<open>A\<close> at scratchpad row 0, operand \<open>B\<close> at row \<open>DIM\<close> and the result at row
  \<open>2 * DIM\<close>; and the scratchpad rows a command places a tile in.
\<close>

definition gemmini_protocol :: "nat \<Rightarrow> gemmini_op list" where
  "gemmini_protocol DIM =
     [Config_ld DIM, Config_st DIM, Mvin Mat_A 0, Mvin Mat_B DIM,
      Config_ex OUTPUT_STATIONARY 0 0, Preload_zeros (2 * DIM),
      Compute_preloaded 0 DIM, Mvout Mat_C (2 * DIM), Fence]"

fun region_of :: "nat \<Rightarrow> gemmini_op \<Rightarrow> nat set option" where
  \<comment> \<open>Modelled from the spec: a \<open>DIM \<times> DIM\<close> tile occupies \<open>DIM\<close> consecutive rows.\<close>
  "region_of DIM (Mvin src sp) = Some {sp..<sp + DIM}"
| "region_of DIM (Preload_zeros sp) = Some {sp..<sp + DIM}"
| "region_of DIM _ = None"

definition scratchpad_regions :: "nat \<Rightarrow> gemmini_op list \<Rightarrow> nat set list" where
  "scratchpad_regions DIM ops = List.map_filter (region_of DIM) ops"

text \<open>
  The store \<open>test_ara_performance\<close> prepares before it starts the vector kernel, from the
  store \<open>m\<close> it is entered with: \<^verbatim>\<open>vec_x\<close> and \<^verbatim>\<open>vec_y\<close> generated,
  \<^verbatim>\<open>vec_ref\<close> a copy of \<^verbatim>\<open>vec_y\<close> taken through the scalar SAXPY with
  \<open>alpha = 3\<close>, and \<^verbatim>\<open>vec_y\<close> generated again. \<open>vectors_apart\<close> says that the three
  arrays do not overlap.
\<close>

definition ara_test_store :: "layout \<Rightarrow> memory \<Rightarrow> memory" where
  "ara_test_store L m =
     init_vector_int32 (vec_y L) VEC_LEN 0x1234
       (scalar_saxpy 3 (vec_x L) (vec_ref L) VEC_LEN
         (copy_loop (vec_ref L) (vec_y L) VEC_LEN 0
           (init_vector_int32 (vec_y L) VEC_LEN 0x1234
             (init_vector_int32 (vec_x L) VEC_LEN 0xABCD m))))"

definition apart :: "nat \<Rightarrow> nat \<Rightarrow> bool" where
  "apart a b \<longleftrightarrow> a + VEC_LEN \<le> b \<or> b + VEC_LEN \<le> a"

definition vectors_apart :: "layout \<Rightarrow> bool" where
  "vectors_apart L \<longleftrightarrow>
     apart (vec_x L) (vec_y L) \<and> apart (vec_x L) (vec_ref L) \<and> apart (vec_y L) (vec_ref L)"

text \<open>A vector unit that grants a positive vector length no larger than the one requested.\<close>

definition grants_progress :: "(nat \<Rightarrow> nat) \<Rightarrow> bool" where
  "grants_progress vsetvli \<longleftrightarrow> (\<forall>avl. 0 < avl \<longrightarrow> 0 < vsetvli avl \<and> vsetvli avl \<le> avl)"

section \<open>Properties of the generators\<close>

subsection \<open>The value written into a cell\<close>

lemma ucast_seed_eq: "(ucast (seed :: 32 word) :: 64 word) = word_of_nat (unat seed)"
  by simp

lemma sint_wi8: "- 128 \<le> k \<Longrightarrow> k < 128 \<Longrightarrow> sint (word_of_int k :: 8 word) = k"
  by (simp add: sint_sbintrunc' signed_take_bit_int_eq_self)

lemma sint_wi32:
  "- 2147483648 \<le> k \<Longrightarrow> k < 2147483648 \<Longrightarrow> sint (word_of_int k :: 32 word) = k"
  by (simp add: sint_sbintrunc' signed_take_bit_int_eq_self)

lemma word_diff_of_nat:
  fixes r :: "64 word"
  shows "unat r = v \<Longrightarrow> r - word_of_nat c = word_of_int (int v - int c)"
  by auto

lemma sint_offset_down8:
  fixes r :: "64 word"
  assumes "unat r = v" and "v < 128 + c" and "c \<le> 128"
  shows "sint (ucast (r - word_of_nat c) :: 8 word) = int v - int c"
proof -
  have "is_down (ucast :: 64 word \<Rightarrow> 8 word)" by (simp add: is_down)
  then have "(ucast (r - word_of_nat c) :: 8 word) = word_of_int (int v - int c)"
    by (simp only: word_diff_of_nat [OF assms(1)] ucast_down_wi)
  moreover have "sint (word_of_int (int v - int c) :: 8 word) = int v - int c"
    using assms(2,3) by (intro sint_wi8) linarith+
  ultimately show ?thesis by (simp only:)
qed

lemma sint_offset_down32:
  fixes r :: "64 word"
  assumes "unat r = v" and "v < 2147483648 + c" and "c \<le> 2147483648"
  shows "sint (ucast (r - word_of_nat c) :: 32 word) = int v - int c"
proof -
  have "is_down (ucast :: 64 word \<Rightarrow> 32 word)" by (simp add: is_down)
  then have "(ucast (r - word_of_nat c) :: 32 word) = word_of_int (int v - int c)"
    by (simp only: word_diff_of_nat [OF assms(1)] ucast_down_wi)
  moreover have "sint (word_of_int (int v - int c) :: 32 word) = int v - int c"
    using assms(2,3) by (intro sint_wi32) linarith+
  ultimately show ?thesis by (simp only:)
qed

lemma unat_mod_const:
  fixes w :: "64 word"
  assumes "w = word_of_nat a" and "k dvd 2 ^ 64" and "k < 2 ^ 64"
  shows "unat (w mod word_of_nat k) = a mod k"
proof -
  have "unat (word_of_nat k :: 64 word) = k" using assms(3) by (simp add: unat_of_nat)
  then have "unat (w mod word_of_nat k) = (a mod 2 ^ 64) mod k"
    by (simp only: assms(1) unat_mod unat_of_nat) simp
  also have "\<dots> = a mod k" using assms(2) by (simp only: mod_mod_cancel)
  finally show ?thesis .
qed

lemma sint_init_int8_cell:
  "sint (init_int8_cell DIM seed i j) = int ((unat seed + i * DIM + j) mod 16) - 8"
proof -
  let ?w = "(ucast seed + word_of_nat i * word_of_nat DIM + word_of_nat j) :: 64 word"
  let ?a = "unat seed + i * DIM + j"
  have w: "?w = word_of_nat ?a"
    by (simp only: ucast_seed_eq of_nat_add of_nat_mult)
  have u: "unat (?w mod word_of_nat 16) = ?a mod 16"
    by (rule unat_mod_const [OF w]) simp_all
  have b: "?a mod 16 < 128 + 8"
    by (rule less_trans [OF mod_less_divisor]) simp_all
  have "sint (ucast (?w mod word_of_nat 16 - word_of_nat 8) :: 8 word) = int (?a mod 16) - int 8"
    by (rule sint_offset_down8 [OF u b]) simp
  moreover have "init_int8_cell DIM seed i j = ucast (?w mod word_of_nat 16 - word_of_nat 8)"
    by (simp add: init_int8_cell_def)
  ultimately show ?thesis by simp
qed

lemma sint_init_int32_cell:
  "sint (init_int32_cell seed i) = int ((unat seed + i) mod 64) - 32"
proof -
  let ?w = "(ucast seed + word_of_nat i) :: 64 word"
  let ?a = "unat seed + i"
  have w: "?w = word_of_nat ?a"
    by (simp only: ucast_seed_eq of_nat_add)
  have u: "unat (?w mod word_of_nat 64) = ?a mod 64"
    by (rule unat_mod_const [OF w]) simp_all
  have b: "?a mod 64 < 2147483648 + 32"
    by (rule less_trans [OF mod_less_divisor]) simp_all
  have "sint (ucast (?w mod word_of_nat 64 - word_of_nat 32) :: 32 word) = int (?a mod 64) - int 32"
    by (rule sint_offset_down32 [OF u b]) simp
  moreover have "init_int32_cell seed i = ucast (?w mod word_of_nat 64 - word_of_nat 32)"
    by (simp add: init_int32_cell_def)
  ultimately show ?thesis by simp
qed

lemma sint_init_vector_cell:
  assumes "unat seed + i < 2 ^ 64"
  shows "sint (init_vector_cell seed i) = int ((unat seed + i) mod 100) - 50"
proof -
  let ?w = "(ucast seed + word_of_nat i) :: 64 word"
  let ?a = "unat seed + i"
  have w: "?w = word_of_nat ?a"
    by (simp only: ucast_seed_eq of_nat_add)
  have "unat (word_of_nat ?a :: 64 word) = ?a"
    using assms by (simp only: unat_of_nat) simp
  then have uw: "unat ?w = ?a" by (simp only: w)
  have "unat (word_of_nat 100 :: 64 word) = 100" by simp
  then have u: "unat (?w mod word_of_nat 100) = ?a mod 100"
    by (simp only: unat_mod uw)
  have b: "?a mod 100 < 2147483648 + 50"
    by (rule less_trans [OF mod_less_divisor]) simp_all
  have "sint (ucast (?w mod word_of_nat 100 - word_of_nat 50) :: 32 word) = int (?a mod 100) - int 50"
    by (rule sint_offset_down32 [OF u b]) simp
  moreover have "init_vector_cell seed i = ucast (?w mod word_of_nat 100 - word_of_nat 50)"
    by (simp add: init_vector_cell_def)
  ultimately show ?thesis by simp
qed

subsection \<open>Loops that fill a matrix\<close>

lemma fill_j_eq:
  assumes "i < length mat"
  shows "fill_j DIM f i j mat =
    mat[i := map (\<lambda>c. if j \<le> c \<and> c < DIM then f i c else mat ! i ! c) [0..<length (mat ! i)]]"
  using assms
proof (induction DIM f i j mat rule: fill_j.induct)
  case (1 DIM f i j mat)
  show ?case
  proof (cases "j < DIM")
    case False
    then have "map (\<lambda>c. if j \<le> c \<and> c < DIM then f i c else mat ! i ! c) [0..<length (mat ! i)]
        = mat ! i"
      by (intro nth_equalityI) auto
    with False show ?thesis by (subst fill_j.simps) simp
  next
    case True
    let ?row = "mat ! i"
    let ?mat1 = "mat[i := ?row[j := f i j]]"
    have r1: "?mat1 ! i = ?row[j := f i j]" using "1.prems" by simp
    have "fill_j DIM f i (Suc j) ?mat1 =
        ?mat1[i := map (\<lambda>c. if Suc j \<le> c \<and> c < DIM then f i c else ?mat1 ! i ! c)
                     [0..<length (?mat1 ! i)]]"
      using True "1.prems" by (intro "1.IH") simp_all
    also have "\<dots> = mat[i := map (\<lambda>c. if Suc j \<le> c \<and> c < DIM then f i c else ?row[j := f i j] ! c)
                     [0..<length ?row]]"
      by (simp only: r1 list_update_overwrite length_list_update)
    also have "map (\<lambda>c. if Suc j \<le> c \<and> c < DIM then f i c else ?row[j := f i j] ! c) [0..<length ?row]
        = map (\<lambda>c. if j \<le> c \<and> c < DIM then f i c else ?row ! c) [0..<length ?row]"
    proof (intro map_cong refl)
      fix c assume "c \<in> set [0..<length ?row]"
      then have c: "c < length ?row" by simp
      show "(if Suc j \<le> c \<and> c < DIM then f i c else ?row[j := f i j] ! c) =
            (if j \<le> c \<and> c < DIM then f i c else ?row ! c)"
      proof (cases "c = j")
        case True
        with c \<open>j < DIM\<close> show ?thesis by simp
      next
        case False
        then have "Suc j \<le> c \<longleftrightarrow> j \<le> c" by auto
        with False show ?thesis by simp
      qed
    qed
    finally show ?thesis using True by (subst fill_j.simps) simp
  qed
qed

lemma is_matrix_nth: "is_matrix DIM mat \<Longrightarrow> i < DIM \<Longrightarrow> length (mat ! i) = DIM"
  by (simp add: is_matrix_def list_all_length)

lemma is_matrix_length: "is_matrix DIM mat \<Longrightarrow> length mat = DIM"
  by (simp add: is_matrix_def)

lemma is_matrixI: "length mat = DIM \<Longrightarrow> (\<And>i. i < DIM \<Longrightarrow> length (mat ! i) = DIM) \<Longrightarrow> is_matrix DIM mat"
  by (simp add: is_matrix_def list_all_length)

lemma fill_j_matrix:
  assumes "is_matrix DIM mat" and "i < DIM"
  shows "fill_j DIM f i 0 mat = mat[i := map (f i) [0..<DIM]]"
proof -
  have "map (\<lambda>c. if 0 \<le> c \<and> c < DIM then f i c else mat ! i ! c) [0..<DIM] = map (f i) [0..<DIM]"
    by (intro map_cong refl) simp
  moreover have "i < length mat" "length (mat ! i) = DIM"
    using assms by (simp_all add: is_matrix_nth is_matrix_length)
  ultimately show ?thesis
    by (simp only: fill_j_eq)
qed

lemma fill_i_eq:
  assumes "is_matrix DIM mat"
  shows "fill_i DIM f i mat =
    map (\<lambda>r. if i \<le> r then map (f r) [0..<DIM] else mat ! r) [0..<DIM]"
  using assms
proof (induction DIM f i mat rule: fill_i.induct)
  case (1 DIM f i mat)
  show ?case
  proof (cases "i < DIM")
    case False
    then have "map (\<lambda>r. if i \<le> r then map (f r) [0..<DIM] else mat ! r) [0..<DIM] = mat"
      using "1.prems" by (intro nth_equalityI) (auto simp: is_matrix_length)
    with False show ?thesis by (subst fill_i.simps) simp
  next
    case True
    let ?mat1 = "mat[i := map (f i) [0..<DIM]]"
    have step: "fill_j DIM f i 0 mat = ?mat1" using "1.prems" True by (rule fill_j_matrix)
    have m1: "is_matrix DIM ?mat1"
      using "1.prems" True
      by (intro is_matrixI) (auto simp: is_matrix_length is_matrix_nth nth_list_update)
    have "fill_i DIM f (Suc i) ?mat1 =
        map (\<lambda>r. if Suc i \<le> r then map (f r) [0..<DIM] else ?mat1 ! r) [0..<DIM]"
      using True m1 "1.IH" by (simp only: step)
    also have "\<dots> = map (\<lambda>r. if i \<le> r then map (f r) [0..<DIM] else mat ! r) [0..<DIM]"
    proof (intro map_cong refl)
      fix r assume "r \<in> set [0..<DIM]"
      then have r: "r < DIM" by simp
      show "(if Suc i \<le> r then map (f r) [0..<DIM] else ?mat1 ! r) =
            (if i \<le> r then map (f r) [0..<DIM] else mat ! r)"
      proof (cases "r = i")
        case True
        with \<open>i < DIM\<close> "1.prems" show ?thesis by (simp add: is_matrix_length)
      next
        case False
        then have "Suc i \<le> r \<longleftrightarrow> i \<le> r" by auto
        with False show ?thesis by simp
      qed
    qed
    finally show ?thesis using True by (subst fill_i.simps) (simp add: step)
  qed
qed

lemma fill_i_matrix: "is_matrix DIM mat \<Longrightarrow> fill_i DIM f 0 mat = fill_matrix DIM f"
  by (simp add: fill_i_eq fill_matrix_def)

lemma init_matrix_int8_j_fill:
  "init_matrix_int8_j DIM seed i j mat = fill_j DIM (init_int8_cell DIM seed) i j mat"
proof (induction DIM seed i j mat rule: init_matrix_int8_j.induct)
  case (1 DIM seed i j mat)
  then show ?case
    by (subst init_matrix_int8_j.simps, subst fill_j.simps) simp
qed

lemma init_matrix_int8_i_fill:
  "init_matrix_int8_i DIM seed i mat = fill_i DIM (init_int8_cell DIM seed) i mat"
proof (induction DIM seed i mat rule: init_matrix_int8_i.induct)
  case (1 DIM seed i mat)
  then show ?case
    by (subst init_matrix_int8_i.simps, subst fill_i.simps) (simp add: init_matrix_int8_j_fill)
qed

lemma init_matrix_int8_eq:
  "is_matrix DIM mat \<Longrightarrow> init_matrix_int8 DIM mat seed = fill_matrix DIM (init_int8_cell DIM seed)"
  by (simp add: init_matrix_int8_def init_matrix_int8_i_fill fill_i_matrix)

lemma scalar_matmul_int8_j_fill:
  "scalar_matmul_int8_j DIM A B i j C =
   fill_j DIM (\<lambda>i j. saturate_int8 (scalar_matmul_int8_k DIM A B i j 0 0)) i j C"
proof (induction DIM A B i j C rule: scalar_matmul_int8_j.induct)
  case (1 DIM A B i j C)
  then show ?case
    by (subst scalar_matmul_int8_j.simps, subst fill_j.simps) simp
qed

lemma scalar_matmul_int8_i_fill:
  "scalar_matmul_int8_i DIM A B i C =
   fill_i DIM (\<lambda>i j. saturate_int8 (scalar_matmul_int8_k DIM A B i j 0 0)) i C"
proof (induction DIM A B i C rule: scalar_matmul_int8_i.induct)
  case (1 DIM A B i C)
  then show ?case
    by (subst scalar_matmul_int8_i.simps, subst fill_i.simps) (simp add: scalar_matmul_int8_j_fill)
qed

lemma scalar_matmul_int8_eq:
  "is_matrix DIM C \<Longrightarrow> scalar_matmul_int8 DIM A B C =
     fill_matrix DIM (\<lambda>i j. saturate_int8 (scalar_matmul_int8_k DIM A B i j 0 0))"
  by (simp add: scalar_matmul_int8_def scalar_matmul_int8_i_fill fill_i_matrix)

lemma fill_matrix_nth: "i < DIM \<Longrightarrow> j < DIM \<Longrightarrow> fill_matrix DIM f ! i ! j = f i j"
  by (simp add: fill_matrix_def)

lemma is_matrix_fill: "is_matrix DIM (fill_matrix DIM f)"
  by (simp add: fill_matrix_def is_matrix_def list_all_length)

subsection \<open>Loops that fill a flat buffer\<close>

lemma init_vector_int32_loop_eq:
  "init_vector_int32_loop vec len seed i m =
     (\<lambda>q. if vec + i \<le> q \<and> q < vec + len then init_vector_cell seed (q - vec) else m q)"
proof (induction vec len seed i m rule: init_vector_int32_loop.induct)
  case (1 vec len seed i m)
  show ?case
  proof (cases "i < len")
    case False
    then show ?thesis by (subst init_vector_int32_loop.simps) (auto simp: fun_eq_iff)
  next
    case True
    have "init_vector_int32_loop vec len seed i m =
        init_vector_int32_loop vec len seed (Suc i) (m(vec + i := init_vector_cell seed i))"
      using True by (subst init_vector_int32_loop.simps) simp
    also have "\<dots> = (\<lambda>q. if vec + Suc i \<le> q \<and> q < vec + len then init_vector_cell seed (q - vec)
        else (m(vec + i := init_vector_cell seed i)) q)"
      using True by (rule "1.IH")
    also have "\<dots> = (\<lambda>q. if vec + i \<le> q \<and> q < vec + len then init_vector_cell seed (q - vec) else m q)"
    proof
      fix q
      show "(if vec + Suc i \<le> q \<and> q < vec + len then init_vector_cell seed (q - vec)
             else (m(vec + i := init_vector_cell seed i)) q) =
            (if vec + i \<le> q \<and> q < vec + len then init_vector_cell seed (q - vec) else m q)"
      proof (cases "q = vec + i")
        case True
        with \<open>i < len\<close> show ?thesis by simp
      next
        case False
        then have "vec + Suc i \<le> q \<longleftrightarrow> vec + i \<le> q" by auto
        with False show ?thesis by simp
      qed
    qed
    finally show ?thesis .
  qed
qed

lemma init_vector_int32_nth:
  "k < len \<Longrightarrow> init_vector_int32 vec len seed m (vec + k) = init_vector_cell seed k"
  by (simp add: init_vector_int32_def init_vector_int32_loop_eq)

lemma init_matrix_int32_loop_eq:
  "init_matrix_int32_loop mat sz seed i m =
     (\<lambda>q. if mat + i \<le> q \<and> q < mat + sz then init_int32_cell seed (q - mat) else m q)"
proof (induction mat sz seed i m rule: init_matrix_int32_loop.induct)
  case (1 mat sz seed i m)
  show ?case
  proof (cases "i < sz")
    case False
    then show ?thesis by (subst init_matrix_int32_loop.simps) (auto simp: fun_eq_iff)
  next
    case True
    have "init_matrix_int32_loop mat sz seed i m =
        init_matrix_int32_loop mat sz seed (Suc i) (m(mat + i := init_int32_cell seed i))"
      using True by (subst init_matrix_int32_loop.simps) simp
    also have "\<dots> = (\<lambda>q. if mat + Suc i \<le> q \<and> q < mat + sz then init_int32_cell seed (q - mat)
        else (m(mat + i := init_int32_cell seed i)) q)"
      using True by (rule "1.IH")
    also have "\<dots> = (\<lambda>q. if mat + i \<le> q \<and> q < mat + sz then init_int32_cell seed (q - mat) else m q)"
    proof
      fix q
      show "(if mat + Suc i \<le> q \<and> q < mat + sz then init_int32_cell seed (q - mat)
             else (m(mat + i := init_int32_cell seed i)) q) =
            (if mat + i \<le> q \<and> q < mat + sz then init_int32_cell seed (q - mat) else m q)"
      proof (cases "q = mat + i")
        case True
        with \<open>i < sz\<close> show ?thesis by simp
      next
        case False
        then have "mat + Suc i \<le> q \<longleftrightarrow> mat + i \<le> q" by auto
        with False show ?thesis by simp
      qed
    qed
    finally show ?thesis .
  qed
qed

lemma init_matrix_int32_nth:
  "k < sz \<Longrightarrow> init_matrix_int32 mat sz seed m (mat + k) = init_int32_cell seed k"
  by (simp add: init_matrix_int32_def init_matrix_int32_loop_eq)

lemma mod_bounds: "0 < c \<Longrightarrow> - int h \<le> int (a mod c) - int h" "0 < c \<Longrightarrow> int (a mod c) - int h \<le> int c - 1 - int h"
  by (simp_all add: Suc_leI)

subsection \<open>What the generators write\<close>

text \<open>
  C7: for every seed, \<open>init_matrix_int8\<close> writes \<open>((seed + i * DIM + j) mod 16) - 8\<close> into
  cell \<open>(i, j)\<close> of a \<open>DIM \<times> DIM\<close> buffer, a value in \<open>[-8, 7]\<close>;
  \<open>init_matrix_int32\<close> writes \<open>((seed + k) mod 64) - 32\<close>, a value in \<open>[-32, 31]\<close>, and
  \<open>init_vector_int32\<close> writes \<open>((seed + k) mod 100) - 50\<close>, a value in \<open>[-50, 49]\<close>, into
  element \<open>k\<close> of a buffer of \<open>len\<close> elements, for every index \<open>k\<close> of a buffer whose
  \<open>4 * len\<close> bytes fit the 64-bit address space.
\<close>

theorem generators_write_formula:
  assumes "is_matrix DIM mat" and "i < DIM" and "j < DIM" and "k < len" and "4 * len \<le> 2 ^ 64"
  shows "sint (init_matrix_int8 DIM mat seed ! i ! j) = int ((unat seed + i * DIM + j) mod 16) - 8
       \<and> - 8 \<le> sint (init_matrix_int8 DIM mat seed ! i ! j)
       \<and> sint (init_matrix_int8 DIM mat seed ! i ! j) \<le> 7
       \<and> sint (init_matrix_int32 p len seed m (p + k)) = int ((unat seed + k) mod 64) - 32
       \<and> - 32 \<le> sint (init_matrix_int32 p len seed m (p + k))
       \<and> sint (init_matrix_int32 p len seed m (p + k)) \<le> 31
       \<and> sint (init_vector_int32 p len seed m (p + k)) = int ((unat seed + k) mod 100) - 50
       \<and> - 50 \<le> sint (init_vector_int32 p len seed m (p + k))
       \<and> sint (init_vector_int32 p len seed m (p + k)) \<le> 49"
proof -
  have a: "sint (init_matrix_int8 DIM mat seed ! i ! j) = int ((unat seed + i * DIM + j) mod 16) - 8"
    using assms(1-3) by (simp add: init_matrix_int8_eq fill_matrix_nth sint_init_int8_cell)
  have b: "sint (init_matrix_int32 p len seed m (p + k)) = int ((unat seed + k) mod 64) - 32"
    using assms(4) by (simp add: init_matrix_int32_nth sint_init_int32_cell)
  have "unat seed < 2 ^ 32" using unsigned_less [of seed] by simp
  moreover have "k < 2 ^ 62" using assms(4,5) by simp
  ultimately have "unat seed + k < 2 ^ 64" by simp
  then have c: "sint (init_vector_int32 p len seed m (p + k)) = int ((unat seed + k) mod 100) - 50"
    using assms(4) by (simp add: init_vector_int32_nth sint_init_vector_cell)
  have "(unat seed + i * DIM + j) mod 16 < 16" "(unat seed + k) mod 64 < 64"
    "(unat seed + k) mod 100 < 100" by simp_all
  with a b c show ?thesis by linarith
qed

theorem generators_write_formula_witness:
  "is_matrix 16 (replicate 16 (replicate 16 0)) \<and> (3::nat) < 16 \<and> (5::nat) < 16 \<and>
   (7::nat) < 256 \<and> (4::nat) * 256 \<le> 2 ^ 64 \<and>
   sint (init_matrix_int8 16 (replicate 16 (replicate 16 0)) 0x5678 ! 3 ! 5) = 5 \<and>
   sint (init_matrix_int32 0 256 0x5678 (\<lambda>q. 0) (0 + 7)) = 31 \<and>
   sint (init_vector_int32 0 256 0x1234 (\<lambda>q. 0) (0 + 7)) = 17"
proof -
  have h: "is_matrix 16 (replicate 16 (replicate 16 0))" "(3::nat) < 16" "(5::nat) < 16"
    "(7::nat) < 256" "(4::nat) * 256 \<le> 2 ^ 64"
    by (simp_all add: is_matrix_def list_all_iff)
  from generators_write_formula [OF h, of "0x5678" 0 "\<lambda>q. 0"]
    generators_write_formula [OF h, of "0x1234" 0 "\<lambda>q. 0"] h
  show ?thesis by simp
qed

text \<open>
  C8: the generators are deterministic in their inputs. Two runs of \<open>init_matrix_int8\<close>
  with the same seed leave identical matrices whatever the two \<open>DIM \<times> DIM\<close> buffers
  held before, and two runs of \<open>init_matrix_int32\<close> or of \<open>init_vector_int32\<close> with the
  same seed and length leave identical buffer contents, whatever the stores held before and
  wherever the buffers are.
\<close>

theorem generators_deterministic:
  assumes "is_matrix DIM mat1" and "is_matrix DIM mat2"
  shows "init_matrix_int8 DIM mat1 seed = init_matrix_int8 DIM mat2 seed
       \<and> buffer (init_matrix_int32 p1 len seed m1) p1 len = buffer (init_matrix_int32 p2 len seed m2) p2 len
       \<and> buffer (init_vector_int32 p1 len seed m1) p1 len = buffer (init_vector_int32 p2 len seed m2) p2 len"
  using assms
  by (simp add: init_matrix_int8_eq buffer_def init_matrix_int32_nth init_vector_int32_nth)

theorem generators_deterministic_witness:
  "is_matrix 2 [[1, 2], [3, 4]] \<and> is_matrix 2 [[0, 0], [0, 0]] \<and>
   init_matrix_int8 2 [[1, 2], [3, 4]] 0x5678 = init_matrix_int8 2 [[0, 0], [0, 0]] 0x5678 \<and>
   buffer (init_matrix_int32 0 3 0x5678 (\<lambda>q. 0)) 0 3 = buffer (init_matrix_int32 8 3 0x5678 (\<lambda>q. 1)) 8 3 \<and>
   buffer (init_vector_int32 0 3 0x5678 (\<lambda>q. 0)) 0 3 = buffer (init_vector_int32 8 3 0x5678 (\<lambda>q. 1)) 8 3"
proof -
  have h: "is_matrix 2 [[1, 2], [3, 4]]" "is_matrix 2 [[0, 0], [0, 0]]"
    by (simp_all add: is_matrix_def)
  from generators_deterministic [OF h, of "0x5678" 0 3 "\<lambda>q. 0" 8 "\<lambda>q. 1"] h
  show ?thesis by simp
qed

section \<open>Properties of the narrow matrix multiply\<close>

lemma scast_elem_eq: "(scast (a :: 8 word) :: 32 word) = word_of_int (sint a)"
  by simp

lemma scalar_matmul_int8_k_eq:
  "scalar_matmul_int8_k DIM A B i j k (word_of_int s) =
     word_of_int (s + (\<Sum>t = k..<DIM. sint (A ! i ! t) * sint (B ! t ! j)))"
proof (induction "DIM - k" arbitrary: k s)
  case 0
  then show ?case by (subst scalar_matmul_int8_k.simps) simp
next
  case (Suc d)
  then have lt: "k < DIM" and d: "d = DIM - Suc k" by simp_all
  have "word_of_int s + scast (A ! i ! k) * scast (B ! k ! j) =
      (word_of_int (s + sint (A ! i ! k) * sint (B ! k ! j)) :: 32 word)"
    by (simp only: scast_elem_eq of_int_add of_int_mult)
  then have "scalar_matmul_int8_k DIM A B i j k (word_of_int s) =
      scalar_matmul_int8_k DIM A B i j (Suc k) (word_of_int (s + sint (A ! i ! k) * sint (B ! k ! j)))"
    using lt by (subst scalar_matmul_int8_k.simps) (simp only: if_True)
  also have "\<dots> = word_of_int (s + sint (A ! i ! k) * sint (B ! k ! j) +
      (\<Sum>t = Suc k..<DIM. sint (A ! i ! t) * sint (B ! t ! j)))"
    by (rule Suc.hyps(1) [OF d])
  also have "s + sint (A ! i ! k) * sint (B ! k ! j) +
      (\<Sum>t = Suc k..<DIM. sint (A ! i ! t) * sint (B ! t ! j)) =
      s + (\<Sum>t = k..<DIM. sint (A ! i ! t) * sint (B ! t ! j))"
    using lt by (simp add: sum.atLeast_Suc_lessThan)
  finally show ?case .
qed

lemma elem_product_bound:
  fixes a b :: "8 word"
  shows "\<bar>sint a * sint b\<bar> \<le> 16384"
proof -
  have "\<bar>sint a\<bar> \<le> 128" "\<bar>sint b\<bar> \<le> 128"
    using sint_range_size [of a] sint_range_size [of b] by (simp_all add: word_size abs_le_iff)
  then have "\<bar>sint a\<bar> * \<bar>sint b\<bar> \<le> 128 * 128"
    by (intro mult_mono) simp_all
  then show ?thesis by (simp add: abs_mult)
qed

lemma dot_product_bound:
  "\<bar>\<Sum>t = 0..<DIM. sint (A ! i ! t :: 8 word) * sint (B ! t ! j :: 8 word)\<bar> \<le> int DIM * 16384"
proof -
  have "\<bar>\<Sum>t = 0..<DIM. sint (A ! i ! t) * sint (B ! t ! j)\<bar>
      \<le> (\<Sum>t = 0..<DIM. \<bar>sint (A ! i ! t) * sint (B ! t ! j)\<bar>)"
    by (rule sum_abs)
  also have "\<dots> \<le> (\<Sum>t = 0..<DIM. 16384)"
    by (intro sum_mono elem_product_bound)
  finally show ?thesis by simp
qed

lemma sint_saturate_int8:
  assumes "- 2147483648 \<le> s" and "s < 2147483648"
  shows "sint (saturate_int8 (word_of_int s)) = max (- 128) (min 127 s)"
proof -
  have s: "sint (word_of_int s :: 32 word) = s" using assms by (rule sint_wi32)
  have c127: "sint (127 :: 32 word) = 127" and cm128: "sint (- 128 :: 32 word) = - 128" by simp_all
  have down: "is_down (ucast :: 32 word \<Rightarrow> 8 word)" by (simp add: is_down)
  consider "127 < s" | "s < - 128" | "- 128 \<le> s" "s \<le> 127" by linarith
  then show ?thesis
  proof cases
    case 1
    then have "saturate_int8 (word_of_int s) = ucast (127 :: 32 word)"
      by (simp add: saturate_int8_def word_sless_alt s del: word_of_int_less_iff)
    with 1 show ?thesis by simp
  next
    case 2
    then have "saturate_int8 (word_of_int s) = ucast (- 128 :: 32 word)"
      by (simp add: saturate_int8_def word_sless_alt s)
    with 2 show ?thesis by simp
  next
    case 3
    then have "saturate_int8 (word_of_int s) = ucast (word_of_int s :: 32 word)"
      by (simp add: saturate_int8_def word_sless_alt s)
    also have "\<dots> = word_of_int s" using down by (rule ucast_down_wi)
    finally show ?thesis using 3 by (simp add: sint_wi8)
  qed
qed


lemma sint_matmul_cell:
  assumes "DIM \<le> 131071"
  shows "sint (saturate_int8 (scalar_matmul_int8_k DIM A B i j 0 0)) =
         max (- 128) (min 127 (\<Sum>k = 0..<DIM. sint (A ! i ! k) * sint (B ! k ! j)))"
proof -
  let ?dot = "\<Sum>k = 0..<DIM. sint (A ! i ! k) * sint (B ! k ! j)"
  have "scalar_matmul_int8_k DIM A B i j 0 (word_of_int 0) = word_of_int (0 + ?dot)"
    by (rule scalar_matmul_int8_k_eq)
  then have k: "scalar_matmul_int8_k DIM A B i j 0 0 = word_of_int ?dot" by simp
  have "\<bar>?dot\<bar> \<le> int DIM * 16384" by (rule dot_product_bound)
  also have "\<dots> \<le> 131071 * 16384" using assms by simp
  finally have "- 2147483648 \<le> ?dot" "?dot < 2147483648" by simp_all
  then show ?thesis by (simp only: k sint_saturate_int8)
qed

text \<open>
  C2: for every pair of \<open>DIM \<times> DIM\<close> matrices of 8-bit elements, with \<open>DIM\<close> small
  enough for the 32-bit sum not to overflow (\<open>DIM \<le> 131071\<close>), every output cell of
  \<open>scalar_matmul_int8\<close> is the exact dot product of the row of \<open>A\<close> and the column of
  \<open>B\<close>, clamped into \<open>[-128, 127]\<close>. In particular the cell is exactly \<open>127\<close> when the
  dot product exceeds \<open>127\<close> and exactly \<open>-128\<close> when it is below \<open>-128\<close>.
\<close>

theorem scalar_matmul_int8_saturated_dot_product:
  assumes "is_matrix DIM A" and "is_matrix DIM B" and "is_matrix DIM C"
    and "DIM \<le> 131071" and "i < DIM" and "j < DIM"
  shows "sint (scalar_matmul_int8 DIM A B C ! i ! j) =
           max (- 128) (min 127 (\<Sum>k = 0..<DIM. sint (A ! i ! k) * sint (B ! k ! j)))
       \<and> (127 < (\<Sum>k = 0..<DIM. sint (A ! i ! k) * sint (B ! k ! j))
            \<longrightarrow> scalar_matmul_int8 DIM A B C ! i ! j = 127)
       \<and> ((\<Sum>k = 0..<DIM. sint (A ! i ! k) * sint (B ! k ! j)) < - 128
            \<longrightarrow> scalar_matmul_int8 DIM A B C ! i ! j = - 128)"
proof -
  let ?dot = "\<Sum>k = 0..<DIM. sint (A ! i ! k) * sint (B ! k ! j)"
  let ?c = "scalar_matmul_int8 DIM A B C ! i ! j"
  have c: "sint ?c = max (- 128) (min 127 ?dot)"
    using assms by (simp add: scalar_matmul_int8_eq fill_matrix_nth sint_matmul_cell)
  have "?c = 127" if "127 < ?dot"
  proof -
    from that c have "sint ?c = sint (127 :: 8 word)" by simp
    then show ?thesis by (rule signed_word_eqI)
  qed
  moreover have "?c = - 128" if "?dot < - 128"
  proof -
    from that c have "sint ?c = sint (- 128 :: 8 word)" by simp
    then show ?thesis by (rule signed_word_eqI)
  qed
  ultimately show ?thesis using c by blast
qed

theorem scalar_matmul_int8_saturated_dot_product_witness:
  "is_matrix 3 (replicate 3 (replicate 3 7)) \<and> is_matrix 3 (replicate 3 (replicate 3 0)) \<and>
   (3::nat) \<le> 131071 \<and> (0::nat) < 3 \<and>
   (\<Sum>k = 0..<3. sint (replicate 3 (replicate 3 (7 :: 8 word)) ! 0 ! k)
      * sint (replicate 3 (replicate 3 (7 :: 8 word)) ! k ! 0)) = 147 \<and>
   scalar_matmul_int8 3 (replicate 3 (replicate 3 7)) (replicate 3 (replicate 3 7))
     (replicate 3 (replicate 3 0)) ! 0 ! 0 = 127"
proof -
  have h: "is_matrix 3 (replicate 3 (replicate 3 7))" "is_matrix 3 (replicate 3 (replicate 3 7))"
    "is_matrix 3 (replicate 3 (replicate 3 0))" "(3::nat) \<le> 131071" "(0::nat) < 3" "(0::nat) < 3"
    by (simp_all add: is_matrix_def list_all_iff)
  have d: "(\<Sum>k = 0..<3. sint (replicate 3 (replicate 3 (7 :: 8 word)) ! 0 ! k)
      * sint (replicate 3 (replicate 3 (7 :: 8 word)) ! k ! 0)) = 147"
    by (simp add: sum.atLeast_Suc_lessThan)
  from scalar_matmul_int8_saturated_dot_product [OF h] d h show ?thesis by simp
qed

section \<open>Properties of the verification loop\<close>

lemma gemmini_verify_j_eq:
  assumes "n \<le> 5"
  shows "gemmini_verify_j DIM C R i j (int n, out) =
     (int (min 5 (n + length (filter (mismatch C R) (row_cells DIM i j)))),
      out @ map (report C R) (take (5 - n) (filter (mismatch C R) (row_cells DIM i j))))"
  using assms
proof (induction "DIM - j" arbitrary: j n out)
  case 0
  then have "row_cells DIM i j = []" by (simp add: row_cells_def)
  with 0 show ?case by (subst gemmini_verify_j.simps) simp
next
  case (Suc d)
  then have lt: "j < DIM" and d: "d = DIM - Suc j" by simp_all
  have cells: "row_cells DIM i j = (i, j) # row_cells DIM i (Suc j)"
    using lt by (simp add: row_cells_def upt_conv_Cons)
  let ?ms = "filter (mismatch C R) (row_cells DIM i (Suc j))"
  show ?case
  proof (cases "n < 5")
    case False
    with Suc.prems have "n = 5" by simp
    then show ?thesis by (subst gemmini_verify_j.simps) simp
  next
    case True
    let ?diff = "sint (C ! i ! j) - sint (R ! i ! j)"
    have mm: "mismatch C R (i, j) \<longleftrightarrow> ?diff < - 1 \<or> ?diff > 1"
      by (auto simp: mismatch_def)
    show ?thesis
    proof (cases "mismatch C R (i, j)")
      case m: True
      have "gemmini_verify_j DIM C R i j (int n, out) =
          gemmini_verify_j DIM C R i (Suc j) (int (Suc n), out @ [report C R (i, j)])"
        using lt True m mm
        by (subst gemmini_verify_j.simps) (simp add: Let_def report_def add.commute)
      also have "\<dots> = (int (min 5 (Suc n + length ?ms)),
          (out @ [report C R (i, j)]) @ map (report C R) (take (5 - Suc n) ?ms))"
        using True by (intro Suc.hyps(1) [OF d]) simp
      also have "\<dots> = (int (min 5 (n + length (filter (mismatch C R) (row_cells DIM i j)))),
          out @ map (report C R) (take (5 - n) (filter (mismatch C R) (row_cells DIM i j))))"
        using True m by (simp add: cells take_Cons')
      finally show ?thesis .
    next
      case m: False
      have "gemmini_verify_j DIM C R i j (int n, out) =
          gemmini_verify_j DIM C R i (Suc j) (int n, out)"
        using lt True m mm
        by (subst gemmini_verify_j.simps) (simp add: Let_def)
      also have "\<dots> = (int (min 5 (n + length ?ms)), out @ map (report C R) (take (5 - n) ?ms))"
        using Suc.prems by (intro Suc.hyps(1) [OF d])
      also have "\<dots> = (int (min 5 (n + length (filter (mismatch C R) (row_cells DIM i j)))),
          out @ map (report C R) (take (5 - n) (filter (mismatch C R) (row_cells DIM i j))))"
        using m by (simp add: cells)
      finally show ?thesis .
    qed
  qed
qed

lemma gemmini_verify_i_eq:
  assumes "n \<le> 5"
  shows "gemmini_verify_i DIM C R i (int n, out) =
     (int (min 5 (n + length (filter (mismatch C R) (cells_from DIM i)))),
      out @ map (report C R) (take (5 - n) (filter (mismatch C R) (cells_from DIM i))))"
  using assms
proof (induction "DIM - i" arbitrary: i n out)
  case 0
  then have "cells_from DIM i = []" by (simp add: cells_from_def)
  with 0 show ?case by (subst gemmini_verify_i.simps) simp
next
  case (Suc d)
  then have lt: "i < DIM" and d: "d = DIM - Suc i" by simp_all
  let ?row = "filter (mismatch C R) (row_cells DIM i 0)"
  let ?rest = "filter (mismatch C R) (cells_from DIM (Suc i))"
  have cells: "filter (mismatch C R) (cells_from DIM i) = ?row @ ?rest"
    using lt by (simp add: cells_from_def upt_conv_Cons)
  show ?case
  proof (cases "n < 5")
    case False
    with Suc.prems have "n = 5" by simp
    then show ?thesis by (subst gemmini_verify_i.simps) simp
  next
    case True
    let ?n' = "min 5 (n + length ?row)"
    have "gemmini_verify_i DIM C R i (int n, out) =
        gemmini_verify_i DIM C R (Suc i) (gemmini_verify_j DIM C R i 0 (int n, out))"
      using lt True by (subst gemmini_verify_i.simps) simp
    also have "\<dots> = gemmini_verify_i DIM C R (Suc i)
        (int ?n', out @ map (report C R) (take (5 - n) ?row))"
      using Suc.prems by (simp only: gemmini_verify_j_eq)
    also have "\<dots> = (int (min 5 (?n' + length ?rest)),
        (out @ map (report C R) (take (5 - n) ?row)) @ map (report C R) (take (5 - ?n') ?rest))"
      by (intro Suc.hyps(1) [OF d]) simp
    also have "\<dots> = (int (min 5 (n + length (?row @ ?rest))),
        out @ map (report C R) (take (5 - n) (?row @ ?rest)))"
      by (auto simp: min_def)
    finally show ?thesis by (simp only: cells)
  qed
qed

lemma gemmini_verify_eq:
  "gemmini_verify DIM g =
     (int (min 5 (length (mismatches DIM (gemmini_C g) (gemmini_ref g)))),
      g\<lparr>console := console g @ map (report (gemmini_C g) (gemmini_ref g))
                      (take 5 (mismatches DIM (gemmini_C g) (gemmini_ref g)))\<rparr>)"
proof -
  have "gemmini_verify_i DIM (gemmini_C g) (gemmini_ref g) 0 (int 0, console g) =
     (int (min 5 (0 + length (filter (mismatch (gemmini_C g) (gemmini_ref g)) (cells_from DIM 0)))),
      console g @ map (report (gemmini_C g) (gemmini_ref g))
        (take (5 - 0) (filter (mismatch (gemmini_C g) (gemmini_ref g)) (cells_from DIM 0))))"
    by (rule gemmini_verify_i_eq) simp
  then show ?thesis
    by (simp add: gemmini_verify_def mismatches_def)
qed

lemma gemmini_verify_passes_iff:
  "(fst (gemmini_verify DIM g) = 0) = (mismatches DIM (gemmini_C g) (gemmini_ref g) = [])"
  by (cases "mismatches DIM (gemmini_C g) (gemmini_ref g)") (simp_all add: gemmini_verify_eq)

text \<open>
  C4, as the code has it: the verification loop scans the cells in row-major order and
  records a mismatch, printing its coordinates and the two values, for each cell where
  \<open>|result - reference|\<close> exceeds the tolerance of 1; both loop conditions also require
  \<open>errors < 5\<close>, so the scan stops at the fifth mismatch. The count is the number of
  mismatching cells capped at 5, the lines printed are those of the first 5 mismatching
  cells, and the count is zero exactly when no cell mismatches.
\<close>

theorem gemmini_verify_count_capped:
  "gemmini_verify DIM g =
     (int (min 5 (length (mismatches DIM (gemmini_C g) (gemmini_ref g)))),
      g\<lparr>console := console g @ map (report (gemmini_C g) (gemmini_ref g))
                      (take 5 (mismatches DIM (gemmini_C g) (gemmini_ref g)))\<rparr>)
   \<and> (fst (gemmini_verify DIM g) = 0) = (mismatches DIM (gemmini_C g) (gemmini_ref g) = [])"
  using gemmini_verify_eq [of DIM g] gemmini_verify_passes_iff [of DIM g] by simp

theorem gemmini_verify_count_capped_witness:
  "fst (gemmini_verify 2 ((boot 2)\<lparr>gemmini_C := [[0, 3], [1, - 2]]\<rparr>)) = 2 \<and>
   console (snd (gemmini_verify 2 ((boot 2)\<lparr>gemmini_C := [[0, 3], [1, - 2]]\<rparr>))) =
     [Matrix_mismatch 0 1 3 0, Matrix_mismatch 1 1 (- 2) 0]"
proof -
  have "mismatches 2 [[0, 3], [1, - 2]] (replicate 2 (replicate 2 0)) = [(0, 1), (1, 1)]"
    by (simp add: mismatches_def cells_from_def row_cells_def mismatch_def upt_conv_Cons)
  then show ?thesis
    using gemmini_verify_count_capped [of 2 "(boot 2)\<lparr>gemmini_C := [[0, 3], [1, - 2]]\<rparr>"]
    by (simp add: boot_def report_def)
qed

text \<open>
  C4 as stated says that all mismatches are counted even when more than 5 cells mismatch.
  With a result of all tens against a reference of all zeros at \<open>DIM = 16\<close>, all 256 cells
  mismatch and the count is 5.
\<close>

theorem gemmini_verify_counts_all_counterexample:
  "length (mismatches 16 (replicate 16 (replicate 16 10)) (replicate 16 (replicate 16 0))) = 256 \<and>
   fst (gemmini_verify 16 ((boot 16)\<lparr>gemmini_C := replicate 16 (replicate 16 10)\<rparr>)) = 5"
  by code_simp

section \<open>Properties of the SAXPY kernels\<close>

lemma scalar_saxpy_loop_outside:
  "q < y + i \<or> y + n \<le> q \<Longrightarrow> scalar_saxpy_loop a x y n i m q = m q"
proof (induction a x y n i m rule: scalar_saxpy_loop.induct)
  case (1 a x y n i m)
  show ?case
  proof (cases "i < n")
    case True
    let ?m = "m(y + i := a * m (x + i) + m (y + i))"
    from "1.prems" True have ne: "q \<noteq> y + i" and "q < y + Suc i \<or> y + n \<le> q" by auto
    with True "1.IH" have "scalar_saxpy_loop a x y n (Suc i) ?m q = ?m q" by blast
    also have "?m q = m q" using ne by simp
    finally show ?thesis using True
      by (subst scalar_saxpy_loop.simps) simp
  next
    case False
    then show ?thesis
      by (subst scalar_saxpy_loop.simps) simp
  qed
qed

lemma scalar_saxpy_loop_inside:
  assumes "x + n \<le> y \<or> y + n \<le> x" and "i \<le> k" and "k < n"
  shows "scalar_saxpy_loop a x y n i m (y + k) = a * m (x + k) + m (y + k)"
  using assms
proof (induction a x y n i m rule: scalar_saxpy_loop.induct)
  case (1 a x y n i m)
  let ?m = "m(y + i := a * m (x + i) + m (y + i))"
  from "1.prems" have lt: "i < n" by simp
  have unf: "scalar_saxpy_loop a x y n i m = scalar_saxpy_loop a x y n (Suc i) ?m"
    using lt by (subst scalar_saxpy_loop.simps) simp
  show ?case
  proof (cases "k = i")
    case True
    have "scalar_saxpy_loop a x y n (Suc i) ?m (y + k) = ?m (y + k)"
      using True by (intro scalar_saxpy_loop_outside) simp
    then show ?thesis using True unf by simp
  next
    case False
    with "1.prems" have "Suc i \<le> k" by simp
    with "1.IH" lt "1.prems" have
      "scalar_saxpy_loop a x y n (Suc i) ?m (y + k) = a * ?m (x + k) + ?m (y + k)" by blast
    moreover have "x + k \<noteq> y + i" using "1.prems" lt by auto
    moreover have "y + k \<noteq> y + i" using False by simp
    ultimately show ?thesis using unf by simp
  qed
qed

lemma scalar_saxpy_eq_spec:
  assumes "x + n \<le> y \<or> y + n \<le> x"
  shows "scalar_saxpy a x y n m = saxpy_spec a x y n m"
proof
  fix q
  show "scalar_saxpy a x y n m q = saxpy_spec a x y n m q"
  proof (cases "y \<le> q \<and> q < y + n")
    case True
    then obtain k where k: "q = y + k" "k < n"
      by (metis le_Suc_ex nat_add_left_cancel_less)
    with assms show ?thesis
      by (simp add: scalar_saxpy_def saxpy_spec_def scalar_saxpy_loop_inside)
  next
    case False
    then have "q < y + 0 \<or> y + n \<le> q" by auto
    then have "scalar_saxpy_loop a x y n 0 m q = m q" by (rule scalar_saxpy_loop_outside)
    with False show ?thesis by (auto simp: scalar_saxpy_def saxpy_spec_def)
  qed
qed

lemma vse32_eq:
  "vse32 m p es = (\<lambda>q. if p \<le> q \<and> q < p + length es then es ! (q - p) else m q)"
proof (induction es arbitrary: m p)
  case Nil
  show ?case by (auto simp: fun_eq_iff)
next
  case (Cons e es)
  show ?case
  proof
    fix q
    show "vse32 m p (e # es) q =
          (if p \<le> q \<and> q < p + length (e # es) then (e # es) ! (q - p) else m q)"
    proof (cases "q = p")
      case True
      then show ?thesis by (simp add: Cons.IH)
    next
      case False
      then have "p \<le> q \<Longrightarrow> (e # es) ! (q - p) = es ! (q - Suc p)"
        by (simp add: nth_Cons')
      with False show ?thesis by (auto simp: Cons.IH)
    qed
  qed
qed

lemma vector_chunk_eq_spec:
  assumes "x + vl \<le> y \<or> y + vl \<le> x"
  shows "vse32 m y (vadd_vv (vmul_vx (vle32 m x vl) a) (vle32 m y vl)) = saxpy_spec a x y vl m"
proof
  fix q
  show "vse32 m y (vadd_vv (vmul_vx (vle32 m x vl) a) (vle32 m y vl)) q = saxpy_spec a x y vl m q"
    by (auto simp: vse32_eq vadd_vv_def vmul_vx_def vle32_def saxpy_spec_def)
qed

lemma saxpy_spec_split:
  assumes "vl \<le> n" and "x + n \<le> y \<or> y + n \<le> x"
  shows "saxpy_spec a (x + vl) (y + vl) (n - vl) (saxpy_spec a x y vl m) = saxpy_spec a x y n m"
proof
  fix q
  have "y + vl \<le> q \<Longrightarrow> x + vl + (q - (y + vl)) = x + (q - y)" by simp
  moreover have "y + vl \<le> q \<Longrightarrow> q < y + n \<Longrightarrow>
      \<not> (y \<le> x + (q - y) \<and> x + (q - y) < y + vl)"
    using assms by auto
  ultimately show "saxpy_spec a (x + vl) (y + vl) (n - vl) (saxpy_spec a x y vl m) q =
        saxpy_spec a x y n m q"
    using assms by (auto simp: saxpy_spec_def)
qed

lemma ara_vector_saxpy_eq_spec:
  assumes hw: "\<forall>avl. 0 < avl \<longrightarrow> 0 < vsetvli avl \<and> vsetvli avl \<le> avl"
  shows "n < 2 ^ 64 \<Longrightarrow> x + n \<le> y \<or> y + n \<le> x \<Longrightarrow>
         ara_vector_saxpy vsetvli a x y n m = Some (saxpy_spec a x y n m)"
proof (induction n arbitrary: x y m rule: less_induct)
  case (less n)
  show ?case
  proof (cases "0 < n")
    case False
    then have "saxpy_spec a x y n m = m" by (auto simp: saxpy_spec_def fun_eq_iff)
    with False show ?thesis by (subst ara_vector_saxpy.simps) simp
  next
    case True
    define vl where "vl = vsetvli n"
    from hw True have vl: "0 < vl" "vl \<le> n" by (auto simp: vl_def)
    have wrap: "(n + 2 ^ 64 - vl) mod 2 ^ 64 = n - vl"
      using vl less.prems(1) by (simp add: mod_if)
    have disj: "x + vl \<le> y \<or> y + vl \<le> x" using less.prems(2) vl by auto
    have rest: "ara_vector_saxpy vsetvli a (x + vl) (y + vl) (n - vl) (saxpy_spec a x y vl m) =
        Some (saxpy_spec a (x + vl) (y + vl) (n - vl) (saxpy_spec a x y vl m))"
      using less.prems vl True by (intro less.IH) auto
    have "ara_vector_saxpy vsetvli a x y n m =
        ara_vector_saxpy vsetvli a (x + vl) (y + vl) (n - vl) (saxpy_spec a x y vl m)"
      using True wrap vector_chunk_eq_spec [OF disj, of m a]
      by (subst ara_vector_saxpy.simps) (simp add: vl_def Let_def)
    with rest saxpy_spec_split [OF vl(2) less.prems(2), of a m] show ?thesis by simp
  qed
qed

text \<open>
  C10: for every \<open>a\<close>, every \<open>n\<close> and every pair of buffers \<open>x\<close> (of \<open>lx\<close>
  elements) and \<open>y\<close> (of \<open>ly\<close> elements) that do not overlap, with \<open>n\<close> within both,
  \<open>scalar_saxpy\<close> sets each of the first \<open>n\<close> elements of \<open>y\<close> to
  \<open>a * x[i] + y[i]\<close>, and leaves unchanged the elements of \<open>y\<close> from index \<open>n\<close> on, the
  whole of \<open>x\<close>, and every other cell of the store.
\<close>

theorem scalar_saxpy_frame:
  assumes "n \<le> lx" and "n \<le> ly" and "x + lx \<le> y \<or> y + ly \<le> x"
  shows "(\<forall>i<n. scalar_saxpy a x y n m (y + i) = a * m (x + i) + m (y + i)) \<and>
         (\<forall>i. n \<le> i \<and> i < ly \<longrightarrow> scalar_saxpy a x y n m (y + i) = m (y + i)) \<and>
         (\<forall>i<lx. scalar_saxpy a x y n m (x + i) = m (x + i)) \<and>
         (\<forall>q. q < y \<or> y + n \<le> q \<longrightarrow> scalar_saxpy a x y n m q = m q)"
proof -
  from assms have disj: "x + n \<le> y \<or> y + n \<le> x" by auto
  have out: "scalar_saxpy a x y n m q = m q" if "q < y \<or> y + n \<le> q" for q
    using that scalar_saxpy_loop_outside [of q y 0 n a x m] by (simp add: scalar_saxpy_def)
  have "scalar_saxpy a x y n m (y + i) = a * m (x + i) + m (y + i)" if "i < n" for i
    using that disj by (simp add: scalar_saxpy_def scalar_saxpy_loop_inside)
  moreover have "scalar_saxpy a x y n m (y + i) = m (y + i)" if "n \<le> i" for i
    using that by (intro out) simp
  moreover have "scalar_saxpy a x y n m (x + i) = m (x + i)" if "i < lx" for i
    using that assms by (intro out) auto
  ultimately show ?thesis using out by blast
qed

theorem scalar_saxpy_frame_witness:
  "(2::nat) \<le> 3 \<and> (2::nat) \<le> 4 \<and> ((0::nat) + 3 \<le> 5 \<or> (5::nat) + 4 \<le> 0) \<and>
   scalar_saxpy 3 0 5 2 (\<lambda>q. word_of_nat q) (5 + 1) = 3 * 1 + 6 \<and>
   scalar_saxpy 3 0 5 2 (\<lambda>q. word_of_nat q) (5 + 2) = 7 \<and>
   scalar_saxpy 3 0 5 2 (\<lambda>q. word_of_nat q) (0 + 1) = 1"
proof -
  have h: "(2::nat) \<le> 3" "(2::nat) \<le> 4" "(0::nat) + 3 \<le> 5 \<or> (5::nat) + 4 \<le> 0"
    by simp_all
  note fr = scalar_saxpy_frame [OF h, of 3 "\<lambda>q. word_of_nat q"]
  from fr have "scalar_saxpy 3 0 5 2 (\<lambda>q. word_of_nat q) (5 + 1) = 3 * word_of_nat (0 + 1) + word_of_nat (5 + 1)"
    by (metis one_less_numeral_iff semiring_norm(76))
  moreover from fr have "scalar_saxpy 3 0 5 2 (\<lambda>q. word_of_nat q) (5 + 2) = word_of_nat (5 + 2)"
    by (metis le_refl numeral_less_iff semiring_norm(76))
  moreover from fr have "scalar_saxpy 3 0 5 2 (\<lambda>q. word_of_nat q) (0 + 1) = word_of_nat (0 + 1)"
    by (metis one_less_numeral_iff semiring_norm(77))
  ultimately show ?thesis using h by simp
qed

text \<open>
  C3: for every \<open>a\<close>, every length \<open>n\<close> and every pair of disjoint buffers, on a vector
  unit that grants a positive vector length no larger than the requested one, the vector
  kernel returns, and the store it leaves is the store the scalar SAXPY leaves when run from
  the same initial contents. This covers \<open>n = 0\<close>, \<open>n\<close> below the hardware vector
  length, and \<open>n\<close> not a multiple of it.
\<close>

theorem ara_vector_saxpy_refines_scalar_saxpy:
  assumes "\<forall>avl. 0 < avl \<longrightarrow> 0 < vsetvli avl \<and> vsetvli avl \<le> avl"
    and "n < 2 ^ 64"
    and "x + n \<le> y \<or> y + n \<le> x"
  shows "ara_vector_saxpy vsetvli a x y n m = Some (scalar_saxpy a x y n m)"
  using assms by (simp add: ara_vector_saxpy_eq_spec scalar_saxpy_eq_spec)

theorem ara_vector_saxpy_refines_scalar_saxpy_witness:
  "(6::nat) < 2 ^ 64 \<and> ((0::nat) + 6 \<le> 8 \<or> (8::nat) + 6 \<le> 0) \<and>
   ara_vector_saxpy (\<lambda>avl. min avl 4) 3 0 8 6 (\<lambda>q. word_of_nat q) =
     Some (scalar_saxpy 3 0 8 6 (\<lambda>q. word_of_nat q)) \<and>
   map (scalar_saxpy 3 0 8 6 (\<lambda>q. word_of_nat q)) [7, 8, 9, 10, 11, 12, 13, 14] =
     [7, 8, 12, 16, 20, 24, 28, 14]"
proof -
  have hw: "\<forall>avl. 0 < avl \<longrightarrow> 0 < min avl (4::nat) \<and> min avl 4 \<le> avl" by simp
  have "map (scalar_saxpy 3 0 8 6 (\<lambda>q. word_of_nat q)) [7, 8, 9, 10, 11, 12, 13, 14] =
     [7, 8, 12, 16, 20, 24, 28, 14]"
    by (simp add: scalar_saxpy_def scalar_saxpy_loop.simps)
  then show ?thesis
    using ara_vector_saxpy_refines_scalar_saxpy [OF hw, of 6 0 8 3 "\<lambda>q. word_of_nat q"]
    by simp
qed

section \<open>Properties of the test programs\<close>

text \<open>
  What each primitive step does to each field of the state, then the facts about the test
  functions that the theorems below rest on.
\<close>

lemma fields_print:
  "rocc (print ln g) = rocc g"
  "console (print ln g) = console g @ [ln]"
  "gemmini_A (print ln g) = gemmini_A g"
  "gemmini_B (print ln g) = gemmini_B g"
  "gemmini_C (print ln g) = gemmini_C g"
  "gemmini_ref (print ln g) = gemmini_ref g"
  "mem (print ln g) = mem g"
  "mcycle_reads (print ln g) = mcycle_reads g"
  by (simp_all add: print_def)

lemma fields_on_mem:
  "rocc (on_mem f g) = rocc g"
  "console (on_mem f g) = console g"
  "gemmini_A (on_mem f g) = gemmini_A g"
  "gemmini_B (on_mem f g) = gemmini_B g"
  "gemmini_C (on_mem f g) = gemmini_C g"
  "gemmini_ref (on_mem f g) = gemmini_ref g"
  "mem (on_mem f g) = f (mem g)"
  "mcycle_reads (on_mem f g) = mcycle_reads g"
  by (simp_all add: on_mem_def)

lemma fields_issue:
  "rocc (issue op g) = rocc g @ [op]"
  "console (issue op g) = console g"
  "gemmini_A (issue op g) = gemmini_A g"
  "gemmini_B (issue op g) = gemmini_B g"
  "gemmini_C (issue op g) = gemmini_C g"
  "gemmini_ref (issue op g) = gemmini_ref g"
  "mem (issue op g) = mem g"
  "mcycle_reads (issue op g) = mcycle_reads g"
  by (simp_all add: issue_def)

lemma fields_gemmini_mvout:
  "rocc (gemmini_mvout hw sp g) = rocc g @ [Mvout Mat_C sp]"
  "console (gemmini_mvout hw sp g) = console g"
  "gemmini_A (gemmini_mvout hw sp g) = gemmini_A g"
  "gemmini_B (gemmini_mvout hw sp g) = gemmini_B g"
  "gemmini_C (gemmini_mvout hw sp g) = hw_matmul hw (gemmini_A g) (gemmini_B g)"
  "gemmini_ref (gemmini_mvout hw sp g) = gemmini_ref g"
  "mem (gemmini_mvout hw sp g) = mem g"
  "mcycle_reads (gemmini_mvout hw sp g) = mcycle_reads g"
  by (simp_all add: gemmini_mvout_def issue_def)

lemma fields_enable_vector_extension:
  "rocc (enable_vector_extension g) = rocc g"
  "console (enable_vector_extension g) = console g"
  "gemmini_A (enable_vector_extension g) = gemmini_A g"
  "gemmini_B (enable_vector_extension g) = gemmini_B g"
  "gemmini_C (enable_vector_extension g) = gemmini_C g"
  "gemmini_ref (enable_vector_extension g) = gemmini_ref g"
  "mem (enable_vector_extension g) = mem g"
  "mcycle_reads (enable_vector_extension g) = mcycle_reads g"
  by (simp_all add: enable_vector_extension_def)

lemma fields_read_csr_mcycle:
  "rocc (snd (read_csr_mcycle hw g)) = rocc g"
  "console (snd (read_csr_mcycle hw g)) = console g"
  "gemmini_A (snd (read_csr_mcycle hw g)) = gemmini_A g"
  "gemmini_B (snd (read_csr_mcycle hw g)) = gemmini_B g"
  "gemmini_C (snd (read_csr_mcycle hw g)) = gemmini_C g"
  "gemmini_ref (snd (read_csr_mcycle hw g)) = gemmini_ref g"
  "mem (snd (read_csr_mcycle hw g)) = mem g"
  "mcycle_reads (snd (read_csr_mcycle hw g)) = Suc (mcycle_reads g)"
  "fst (read_csr_mcycle hw g) = hw_mcycle hw (mcycle_reads g)"
  by (simp_all add: read_csr_mcycle_def)

lemma fields_read_csr_minstret:
  "rocc (snd (read_csr_minstret hw g)) = rocc g"
  "console (snd (read_csr_minstret hw g)) = console g"
  "gemmini_A (snd (read_csr_minstret hw g)) = gemmini_A g"
  "gemmini_B (snd (read_csr_minstret hw g)) = gemmini_B g"
  "gemmini_C (snd (read_csr_minstret hw g)) = gemmini_C g"
  "gemmini_ref (snd (read_csr_minstret hw g)) = gemmini_ref g"
  "mem (snd (read_csr_minstret hw g)) = mem g"
  "mcycle_reads (snd (read_csr_minstret hw g)) = mcycle_reads g"
  by (simp_all add: read_csr_minstret_def)

lemma fields_gemmini_verify:
  "rocc (snd (gemmini_verify DIM g)) = rocc g"
  "console (snd (gemmini_verify DIM g)) = console g @ map (report (gemmini_C g) (gemmini_ref g))
      (take 5 (mismatches DIM (gemmini_C g) (gemmini_ref g)))"
  "gemmini_A (snd (gemmini_verify DIM g)) = gemmini_A g"
  "gemmini_B (snd (gemmini_verify DIM g)) = gemmini_B g"
  "gemmini_C (snd (gemmini_verify DIM g)) = gemmini_C g"
  "gemmini_ref (snd (gemmini_verify DIM g)) = gemmini_ref g"
  "mem (snd (gemmini_verify DIM g)) = mem g"
  "mcycle_reads (snd (gemmini_verify DIM g)) = mcycle_reads g"
  by (simp_all add: gemmini_verify_eq)

lemmas gemmini_issue_defs = gemmini_flush_def gemmini_config_ld_def gemmini_config_st_def
  gemmini_mvin_def gemmini_config_ex_def gemmini_preload_zeros_def
  gemmini_compute_preloaded_def gemmini_fence_def

lemmas prim_fields = fields_print fields_on_mem fields_issue fields_gemmini_mvout
  fields_enable_vector_extension fields_read_csr_mcycle fields_read_csr_minstret
  fields_gemmini_verify gemmini_issue_defs

lemma print_if: "print ln (if c then a else b) = (if c then print ln a else print ln b)"
  by simp

lemma fst_test_scalar_matmul: "fst (test_scalar_matmul hw L g) = 0"
  by (simp add: test_scalar_matmul_def Let_def split_beta)

lemma fst_test_gemmini_matmul: "fst (test_gemmini_matmul DIM hw g) = 0"
  by (simp add: test_gemmini_matmul_def Let_def split_beta)

lemma fst_test_performance_comparison: "fst (test_performance_comparison DIM hw L g) = 0"
  by (simp add: test_performance_comparison_def Let_def split_beta)

lemma main_compare_exit: "fst (main_compare DIM hw L g) = 0"
  by (simp add: main_compare_def Let_def split_beta fst_test_scalar_matmul
      fst_test_gemmini_matmul fst_test_performance_comparison)

lemma rocc_test_gemmini_matmul:
  "rocc (snd (test_gemmini_matmul DIM hw g)) = rocc g @ Flush 0 # gemmini_protocol DIM"
  apply (simp only: test_gemmini_matmul_def Let_def split_beta snd_conv)
  apply (simp add: prim_fields print_if if_distrib [of rocc] gemmini_protocol_def sizeof_elem_t_def
      split del: if_split cong: if_cong)
  done

lemma rocc_test_performance_comparison:
  "rocc (snd (test_performance_comparison DIM hw L g)) = rocc g @ Flush 0 # gemmini_protocol DIM"
  apply (simp only: test_performance_comparison_def Let_def split_beta snd_conv)
  apply (simp add: prim_fields gemmini_protocol_def sizeof_elem_t_def)
  done

lemma test_scalar_matmul_gemmini_fields:
  "gemmini_A (snd (test_scalar_matmul hw L g)) = gemmini_A g"
  "gemmini_B (snd (test_scalar_matmul hw L g)) = gemmini_B g"
  "gemmini_ref (snd (test_scalar_matmul hw L g)) = gemmini_ref g"
  unfolding test_scalar_matmul_def Let_def split_beta snd_conv
  by (simp_all add: prim_fields)

lemma test_gemmini_matmul_warning:
  assumes "gemmini_test_mismatches DIM hw 0x5678 0x9ABC g \<noteq> []"
  shows "Mismatch_warning \<in> set (console (snd (test_gemmini_matmul DIM hw g)))"
  using assms
  apply (simp only: test_gemmini_matmul_def gemmini_test_mismatches_def Let_def split_beta snd_conv)
  apply (simp add: prim_fields gemmini_verify_passes_iff split del: if_split)
  done

lemma console_test_performance_comparison:
  "console (snd (test_performance_comparison DIM hw L g)) =
     console g @
     [Cycles (hw_mcycle hw (mcycle_reads g + 1) - hw_mcycle hw (mcycle_reads g)),
      Cycles (hw_mcycle hw (mcycle_reads g + 3) - hw_mcycle hw (mcycle_reads g + 2)),
      Speedup (udiv64 (hw_mcycle hw (mcycle_reads g + 1) - hw_mcycle hw (mcycle_reads g))
                 (hw_mcycle hw (mcycle_reads g + 3) - hw_mcycle hw (mcycle_reads g + 2)))]"
  apply (simp only: test_performance_comparison_def Let_def split_beta snd_conv)
  apply (simp add: prim_fields numeral_3_eq_3 numeral_2_eq_2)
  done

lemma main_compare_warning:
  assumes "gemmini_test_mismatches DIM hw 0x5678 0x9ABC g \<noteq> []"
  shows "Mismatch_warning \<in> set (console (snd (main_compare DIM hw L g)))"
proof -
  let ?g1 = "snd (test_scalar_matmul hw L g)"
  let ?g2 = "snd (test_gemmini_matmul DIM hw ?g1)"
  have "gemmini_test_mismatches DIM hw 0x5678 0x9ABC ?g1 = gemmini_test_mismatches DIM hw 0x5678 0x9ABC g"
    by (simp add: gemmini_test_mismatches_def test_scalar_matmul_gemmini_fields)
  with assms have "Mismatch_warning \<in> set (console ?g2)"
    by (intro test_gemmini_matmul_warning) simp
  then show ?thesis
    by (simp add: main_compare_def Let_def split_beta fields_print
        fst_test_scalar_matmul fst_test_gemmini_matmul fst_test_performance_comparison
        console_test_performance_comparison)
qed


lemma ara_vector_saxpy_returns:
  assumes "grants_progress vsetvli"
  shows "n < 2 ^ 64 \<Longrightarrow> ara_vector_saxpy vsetvli a x y n m \<noteq> None"
proof (induction n arbitrary: x y m rule: less_induct)
  case (less n)
  show ?case
  proof (cases "0 < n")
    case False
    then show ?thesis by (subst ara_vector_saxpy.simps) simp
  next
    case True
    define vl where "vl = vsetvli n"
    from assms True have vl: "0 < vl" "vl \<le> n" by (auto simp: vl_def grants_progress_def)
    have wrap: "(n + 2 ^ 64 - vl) mod 2 ^ 64 = n - vl"
      using vl less.prems by (simp add: mod_if)
    have "ara_vector_saxpy vsetvli a (x + vl) (y + vl) (n - vl) m' \<noteq> None" for m'
      using less.prems vl True by (intro less.IH) auto
    then show ?thesis
      using True wrap by (subst ara_vector_saxpy.simps) (simp add: vl_def Let_def)
  qed
qed

lemma VEC_LEN_small: "VEC_LEN < 2 ^ 64"
  by (simp add: VEC_LEN_def)

lemma ara_verify_zero_iff:
  "0 \<le> e \<Longrightarrow> (fst (ara_verify_loop y r m i (e, out)) = 0) =
     (e = 0 \<and> (\<forall>k. i \<le> k \<and> k < VEC_LEN \<longrightarrow> m (y + k) = m (r + k)))"
proof (induction "VEC_LEN - i" arbitrary: i e out)
  case 0
  then show ?case by (subst ara_verify_loop.simps) auto
next
  case (Suc d)
  then have lt: "i < VEC_LEN" and d: "d = VEC_LEN - Suc i" by simp_all
  show ?case
  proof (cases "e < 5")
    case False
    then show ?thesis by (subst ara_verify_loop.simps) auto
  next
    case True
    show ?thesis
    proof (cases "m (y + i) = m (r + i)")
      case eq: True
      have "fst (ara_verify_loop y r m i (e, out)) = fst (ara_verify_loop y r m (Suc i) (e, out))"
        using lt True eq by (subst ara_verify_loop.simps) simp
      also have "(\<dots> = 0) =
          (e = 0 \<and> (\<forall>k. Suc i \<le> k \<and> k < VEC_LEN \<longrightarrow> m (y + k) = m (r + k)))"
        using Suc.prems by (intro Suc.hyps(1) [OF d])
      also have "\<dots> = (e = 0 \<and> (\<forall>k. i \<le> k \<and> k < VEC_LEN \<longrightarrow> m (y + k) = m (r + k)))"
        using eq by (metis Suc_leD Suc_leI le_neq_implies_less)
      finally show ?thesis .
    next
      case ne: False
      let ?out = "out @ [Vector_mismatch i (sint (m (y + i))) (sint (m (r + i)))]"
      have "fst (ara_verify_loop y r m i (e, out)) = fst (ara_verify_loop y r m (Suc i) (e + 1, ?out))"
        using lt True ne by (subst ara_verify_loop.simps) simp
      also have "(\<dots> = 0) =
          (e + 1 = 0 \<and> (\<forall>k. Suc i \<le> k \<and> k < VEC_LEN \<longrightarrow> m (y + k) = m (r + k)))"
        using Suc.prems by (intro Suc.hyps(1) [OF d]) simp
      also have "\<dots> = False" using Suc.prems by simp
      also have "False = (e = 0 \<and> (\<forall>k. i \<le> k \<and> k < VEC_LEN \<longrightarrow> m (y + k) = m (r + k)))"
        using ne lt by auto
      finally show ?thesis .
    qed
  qed
qed

lemma ara_verify_passes_iff:
  "(fst (ara_verify_loop y r m 0 (0, out)) = 0) = (\<forall>k<VEC_LEN. m (y + k) = m (r + k))"
  by (simp add: ara_verify_zero_iff)

lemma fst_test_scalar_performance: "fst (test_scalar_performance hw L g) = 0"
  by (simp add: test_scalar_performance_def Let_def split_beta)

lemma fst_test_gemmini_performance: "fst (test_gemmini_performance DIM hw g) = 0"
  by (simp add: test_gemmini_performance_def Let_def split_beta)

lemma rocc_test_gemmini_performance:
  "rocc (snd (test_gemmini_performance DIM hw g)) = rocc g @ Flush 0 # gemmini_protocol DIM"
  apply (simp only: test_gemmini_performance_def Let_def split_beta snd_conv)
  apply (simp add: prim_fields print_if if_distrib [of rocc] gemmini_protocol_def sizeof_elem_t_def
      split del: if_split cong: if_cong)
  done

lemma copy_loop_eq:
  assumes "dst + n \<le> src \<or> src + n \<le> dst"
  shows "copy_loop dst src n i m =
     (\<lambda>q. if dst + i \<le> q \<and> q < dst + n then m (src + (q - dst)) else m q)"
  using assms
proof (induction dst src n i m rule: copy_loop.induct)
  case (1 dst src n i m)
  show ?case
  proof (cases "i < n")
    case False
    then show ?thesis by (subst copy_loop.simps) (auto simp: fun_eq_iff)
  next
    case True
    let ?m = "m(dst + i := m (src + i))"
    have "copy_loop dst src n i m = copy_loop dst src n (Suc i) ?m"
      using True by (subst copy_loop.simps) simp
    also have "\<dots> = (\<lambda>q. if dst + Suc i \<le> q \<and> q < dst + n then ?m (src + (q - dst)) else ?m q)"
      using True "1.prems" by (intro "1.IH")
    also have "\<dots> = (\<lambda>q. if dst + i \<le> q \<and> q < dst + n then m (src + (q - dst)) else m q)"
    proof
      fix q
      show "(if dst + Suc i \<le> q \<and> q < dst + n then ?m (src + (q - dst)) else ?m q) =
            (if dst + i \<le> q \<and> q < dst + n then m (src + (q - dst)) else m q)"
      proof (cases "q = dst + i")
        case True
        with \<open>i < n\<close> show ?thesis by simp
      next
        case False
        then have le: "dst + Suc i \<le> q \<longleftrightarrow> dst + i \<le> q" by auto
        have "src + (q - dst) \<noteq> dst + i" if "dst + i \<le> q" "q < dst + n"
          using that "1.prems" True by auto
        with False le show ?thesis by auto
      qed
    qed
    finally show ?thesis .
  qed
qed

lemma ara_test_store_cells:
  assumes "vectors_apart L" and "i < VEC_LEN"
  shows "ara_test_store L m (vec_x L + i) = init_vector_cell 0xABCD i"
    and "ara_test_store L m (vec_y L + i) = init_vector_cell 0x1234 i"
    and "ara_test_store L m (vec_ref L + i) =
           3 * init_vector_cell 0xABCD i + init_vector_cell 0x1234 i"
proof -
  let ?x = "vec_x L" and ?y = "vec_y L" and ?r = "vec_ref L"
  from assms(1) have xy: "?x + VEC_LEN \<le> ?y \<or> ?y + VEC_LEN \<le> ?x"
    and xr: "?x + VEC_LEN \<le> ?r \<or> ?r + VEC_LEN \<le> ?x"
    and yr: "?y + VEC_LEN \<le> ?r \<or> ?r + VEC_LEN \<le> ?y"
    by (simp_all add: vectors_apart_def apart_def)
  let ?m1 = "init_vector_int32 ?x VEC_LEN 0xABCD m"
  let ?m2 = "init_vector_int32 ?y VEC_LEN 0x1234 ?m1"
  let ?m3 = "copy_loop ?r ?y VEC_LEN 0 ?m2"
  let ?m4 = "scalar_saxpy 3 ?x ?r VEC_LEN ?m3"
  have m1x: "?m1 (?x + i) = init_vector_cell 0xABCD i"
    using assms(2) by (rule init_vector_int32_nth)
  have m2x: "?m2 (?x + i) = init_vector_cell 0xABCD i"
    using xy assms(2) m1x by (auto simp: init_vector_int32_def init_vector_int32_loop_eq)
  have m2y: "?m2 (?y + i) = init_vector_cell 0x1234 i"
    using assms(2) by (rule init_vector_int32_nth)
  have m3: "?m3 = (\<lambda>q. if ?r + 0 \<le> q \<and> q < ?r + VEC_LEN then ?m2 (?y + (q - ?r)) else ?m2 q)"
    using yr by (intro copy_loop_eq) auto
  have m3x: "?m3 (?x + i) = init_vector_cell 0xABCD i"
    using xr assms(2) m2x by (auto simp: m3)
  have m3r: "?m3 (?r + i) = init_vector_cell 0x1234 i"
    using assms(2) m2y by (simp add: m3)
  have m4: "?m4 = saxpy_spec 3 ?x ?r VEC_LEN ?m3"
    using xr by (rule scalar_saxpy_eq_spec)
  have m4x: "?m4 (?x + i) = init_vector_cell 0xABCD i"
    using xr assms(2) m3x by (auto simp: m4 saxpy_spec_def)
  have m4r: "?m4 (?r + i) = 3 * init_vector_cell 0xABCD i + init_vector_cell 0x1234 i"
    using assms(2) m3x m3r by (simp add: m4 saxpy_spec_def)
  show "ara_test_store L m (vec_x L + i) = init_vector_cell 0xABCD i"
    using xy assms(2) m4x
    by (auto simp: ara_test_store_def init_vector_int32_def init_vector_int32_loop_eq)
  show "ara_test_store L m (vec_y L + i) = init_vector_cell 0x1234 i"
    using assms(2) by (simp add: ara_test_store_def init_vector_int32_nth)
  show "ara_test_store L m (vec_ref L + i) =
           3 * init_vector_cell 0xABCD i + init_vector_cell 0x1234 i"
    using yr assms(2) m4r
    by (auto simp: ara_test_store_def init_vector_int32_def init_vector_int32_loop_eq)
qed

lemma ara_kernel_on_test_store:
  assumes "grants_progress vsetvli" and "vectors_apart L"
  shows "\<exists>m'. ara_vector_saxpy vsetvli 3 (vec_x L) (vec_y L) VEC_LEN (ara_test_store L m) = Some m' \<and>
           (\<forall>i<VEC_LEN. m' (vec_y L + i) = 3 * init_vector_cell 0xABCD i + init_vector_cell 0x1234 i \<and>
                        m' (vec_ref L + i) = 3 * init_vector_cell 0xABCD i + init_vector_cell 0x1234 i)"
proof -
  let ?x = "vec_x L" and ?y = "vec_y L" and ?r = "vec_ref L"
  from assms(2) have xy: "?x + VEC_LEN \<le> ?y \<or> ?y + VEC_LEN \<le> ?x"
    and yr: "?y + VEC_LEN \<le> ?r \<or> ?r + VEC_LEN \<le> ?y"
    by (simp_all add: vectors_apart_def apart_def)
  have hw: "\<forall>avl. 0 < avl \<longrightarrow> 0 < vsetvli avl \<and> vsetvli avl \<le> avl"
    using assms(1) by (simp add: grants_progress_def)
  have k: "ara_vector_saxpy vsetvli 3 ?x ?y VEC_LEN (ara_test_store L m) =
      Some (saxpy_spec 3 ?x ?y VEC_LEN (ara_test_store L m))"
    using hw VEC_LEN_small xy by (rule ara_vector_saxpy_eq_spec)
  have "saxpy_spec 3 ?x ?y VEC_LEN (ara_test_store L m) (?y + i) =
      3 * init_vector_cell 0xABCD i + init_vector_cell 0x1234 i" if "i < VEC_LEN" for i
    using that by (simp add: saxpy_spec_def ara_test_store_cells [OF assms(2)])
  moreover have "saxpy_spec 3 ?x ?y VEC_LEN (ara_test_store L m) (?r + i) =
      3 * init_vector_cell 0xABCD i + init_vector_cell 0x1234 i" if "i < VEC_LEN" for i
    using that yr by (auto simp: saxpy_spec_def ara_test_store_cells [OF assms(2)])
  ultimately show ?thesis using k by simp
qed

lemma test_ara_performance_eq:
  assumes "grants_progress (hw_vsetvli hw)"
  shows "\<exists>m ga.
           ara_vector_saxpy (hw_vsetvli hw) 3 (vec_x L) (vec_y L) VEC_LEN
             (ara_test_store L (mem g)) = Some m \<and>
           test_ara_performance hw L g =
             Some (if \<exists>i<VEC_LEN. hw_vector_result hw m (vec_y L + i) \<noteq>
                                    hw_vector_result hw m (vec_ref L + i)
                   then 1 else 0, ga) \<and>
           mem ga = hw_vector_result hw m"
proof -
  obtain m where m: "ara_vector_saxpy (hw_vsetvli hw) 3 (vec_x L) (vec_y L) VEC_LEN
             (ara_test_store L (mem g)) = Some m"
    using ara_vector_saxpy_returns [OF assms VEC_LEN_small] by blast
  then have m': "ara_vector_saxpy (hw_vsetvli hw) 3 (vec_x L) (vec_y L) VEC_LEN
      (init_vector_int32 (vec_y L) VEC_LEN 0x1234
       (scalar_saxpy 3 (vec_x L) (vec_ref L) VEC_LEN
         (copy_loop (vec_ref L) (vec_y L) VEC_LEN 0
           (init_vector_int32 (vec_y L) VEC_LEN 0x1234
             (init_vector_int32 (vec_x L) VEC_LEN 0xABCD (mem g)))))) = Some m"
    by (simp only: ara_test_store_def)
  have "\<exists>ga. test_ara_performance hw L g =
             Some (if \<exists>i<VEC_LEN. hw_vector_result hw m (vec_y L + i) \<noteq>
                                    hw_vector_result hw m (vec_ref L + i)
                   then 1 else 0, ga) \<and>
           mem ga = hw_vector_result hw m"
    apply (simp only: test_ara_performance_def Let_def split_beta)
    apply (simp add: prim_fields m' ara_verify_passes_iff)
    done
  with m show ?thesis by blast
qed

lemma test_comparison_returns:
  assumes "grants_progress (hw_vsetvli hw)"
  shows "\<exists>g'. test_comparison DIM hw L g = Some (0, g') \<and>
           rocc g' = rocc g @ Flush 0 # gemmini_protocol DIM \<and>
           console g' = console g @
             [Cycles (hw_mcycle hw (mcycle_reads g + 1) - hw_mcycle hw (mcycle_reads g)),
              Cycles (hw_mcycle hw (mcycle_reads g + 3) - hw_mcycle hw (mcycle_reads g + 2)),
              Speedup_tenths
                (udiv64 (hw_mcycle hw (mcycle_reads g + 1) - hw_mcycle hw (mcycle_reads g))
                   (hw_mcycle hw (mcycle_reads g + 3) - hw_mcycle hw (mcycle_reads g + 2)))
                (umod64
                   (udiv64 ((hw_mcycle hw (mcycle_reads g + 1) - hw_mcycle hw (mcycle_reads g)) * 10)
                      (hw_mcycle hw (mcycle_reads g + 3) - hw_mcycle hw (mcycle_reads g + 2)))
                   10),
              Cycles (hw_mcycle hw (mcycle_reads g + 5) - hw_mcycle hw (mcycle_reads g + 4)),
              Cycles (hw_mcycle hw (mcycle_reads g + 7) - hw_mcycle hw (mcycle_reads g + 6)),
              Speedup
                (udiv64 (hw_mcycle hw (mcycle_reads g + 5) - hw_mcycle hw (mcycle_reads g + 4))
                   (hw_mcycle hw (mcycle_reads g + 7) - hw_mcycle hw (mcycle_reads g + 6)))]"
  apply (simp only: test_comparison_def Let_def split_beta option.case_eq_if)
  apply (simp add: ara_vector_saxpy_returns [OF assms VEC_LEN_small] prim_fields
      gemmini_protocol_def sizeof_elem_t_def eval_nat_numeral)
  done

lemma main_scalar_compare_returns:
  assumes "grants_progress (hw_vsetvli hw)"
  shows "\<exists>ra ga gf.
           test_ara_performance hw L (snd (test_scalar_performance hw L g)) = Some (ra, ga) \<and>
           main_scalar_compare DIM hw L g = Some (ra, gf)"
proof -
  let ?g1 = "snd (test_scalar_performance hw L g)"
  obtain ra ga where ara: "test_ara_performance hw L ?g1 = Some (ra, ga)"
    using test_ara_performance_eq [OF assms, of L ?g1] by blast
  let ?g2 = "snd (test_gemmini_performance DIM hw ga)"
  obtain g3 where cmp: "test_comparison DIM hw L ?g2 = Some (0, g3)"
    using test_comparison_returns [OF assms] by blast
  have "\<exists>gf. main_scalar_compare DIM hw L g = Some (ra, gf)"
    by (simp add: main_scalar_compare_def Let_def split_beta ara cmp
        fst_test_scalar_performance fst_test_gemmini_performance)
  with ara show ?thesis by blast
qed

lemma zero_matrix_int8_j_fill:
  "zero_matrix_int8_j DIM i j mat = fill_j DIM (\<lambda>i j. 0) i j mat"
proof (induction DIM i j mat rule: zero_matrix_int8_j.induct)
  case (1 DIM i j mat)
  then show ?case
    by (subst zero_matrix_int8_j.simps, subst fill_j.simps) simp
qed

lemma zero_matrix_int8_i_fill:
  "zero_matrix_int8_i DIM i mat = fill_i DIM (\<lambda>i j. 0) i mat"
proof (induction DIM i mat rule: zero_matrix_int8_i.induct)
  case (1 DIM i mat)
  then show ?case
    by (subst zero_matrix_int8_i.simps, subst fill_i.simps) (simp add: zero_matrix_int8_j_fill)
qed

lemma zero_matrix_int8_eq:
  "is_matrix DIM mat \<Longrightarrow> zero_matrix_int8 DIM mat = fill_matrix DIM (\<lambda>i j. 0)"
  by (simp add: zero_matrix_int8_def zero_matrix_int8_i_fill fill_i_matrix)

lemma is_matrix_boot:
  "is_matrix DIM (gemmini_A (boot DIM))" "is_matrix DIM (gemmini_B (boot DIM))"
  "is_matrix DIM (gemmini_C (boot DIM))" "is_matrix DIM (gemmini_ref (boot DIM))"
  by (simp_all add: boot_def is_matrix_def list_all_iff)

lemma reference_cell_0_0:
  "scalar_matmul_int8_k 16 (fill_matrix 16 (init_int8_cell 16 0x5678))
     (fill_matrix 16 (init_int8_cell 16 0x9ABC)) 0 0 0 0 = - 32"
  by code_simp

lemma zero_tile_mismatches:
  "gemmini_test_mismatches 16 (platform ticking zero_matmul) 0x5678 0x9ABC (boot 16) \<noteq> []"
proof -
  let ?A = "fill_matrix 16 (init_int8_cell 16 0x5678)"
  let ?B = "fill_matrix 16 (init_int8_cell 16 0x9ABC)"
  let ?R = "fill_matrix 16 (\<lambda>i j. saturate_int8 (scalar_matmul_int8_k 16 ?A ?B i j 0 0))"
  let ?C = "replicate 16 (replicate 16 (0 :: elem_t))"
  have eq: "gemmini_test_mismatches 16 (platform ticking zero_matmul) 0x5678 0x9ABC (boot 16) =
      mismatches 16 ?C ?R"
    by (simp add: gemmini_test_mismatches_def init_matrix_int8_eq zero_matrix_int8_eq
        scalar_matmul_int8_eq is_matrix_boot is_matrix_fill platform_def zero_matmul_def
        fill_matrix_def [of 16 "init_int8_cell 16 0x5678"])
  have "?R ! 0 ! 0 = saturate_int8 (- 32)"
    by (simp add: fill_matrix_nth reference_cell_0_0)
  then have "mismatch ?C ?R (0, 0)"
    by (simp add: mismatch_def saturate_int8_def word_sless_alt)
  moreover have "(0, 0) \<in> set (cells_from 16 0)"
    by (force simp: cells_from_def row_cells_def)
  ultimately have "mismatches 16 ?C ?R \<noteq> []"
    by (auto simp: mismatches_def filter_empty_conv)
  with eq show ?thesis by simp
qed

section \<open>The accelerator protocol, the exit codes and the speedup report\<close>

lemma grants_progress_platform: "grants_progress (hw_vsetvli (platform clock array))"
  by (simp add: grants_progress_def platform_def)

text \<open>
  C1: every Gemmini run, in each of the four test functions that drive the accelerator,
  issues after the flush exactly the commands configure load stride, configure store stride,
  move-in \<open>A\<close>, move-in \<open>B\<close>, configure execute mode, preload zeros, compute, move-out,
  fence, in this order; the scratchpad rows used for \<open>A\<close>, \<open>B\<close> and \<open>C\<close> are
  \<open>[0, DIM)\<close>, \<open>[DIM, 2 * DIM)\<close> and \<open>[2 * DIM, 3 * DIM)\<close>, which are pairwise
  disjoint. (\<open>test_comparison\<close> runs the vector kernel first; it reaches the accelerator
  run on a vector unit that grants progress.)
\<close>

theorem gemmini_protocol_order_and_regions:
  assumes "grants_progress (hw_vsetvli hw)"
  shows "rocc (snd (test_gemmini_matmul DIM hw g)) = rocc g @ Flush 0 # gemmini_protocol DIM
       \<and> rocc (snd (test_performance_comparison DIM hw L g)) = rocc g @ Flush 0 # gemmini_protocol DIM
       \<and> rocc (snd (test_gemmini_performance DIM hw g)) = rocc g @ Flush 0 # gemmini_protocol DIM
       \<and> (\<exists>g'. test_comparison DIM hw L g = Some (0, g') \<and>
                 rocc g' = rocc g @ Flush 0 # gemmini_protocol DIM)
       \<and> gemmini_protocol DIM =
             [Config_ld DIM, Config_st DIM, Mvin Mat_A 0, Mvin Mat_B DIM,
              Config_ex OUTPUT_STATIONARY 0 0, Preload_zeros (2 * DIM),
              Compute_preloaded 0 DIM, Mvout Mat_C (2 * DIM), Fence]
       \<and> scratchpad_regions DIM (gemmini_protocol DIM) =
             [{0..<DIM}, {DIM..<2 * DIM}, {2 * DIM..<3 * DIM}]
       \<and> {0..<DIM} \<inter> {DIM..<2 * DIM} = {}
       \<and> {0..<DIM} \<inter> {2 * DIM..<3 * DIM} = {}
       \<and> {DIM..<2 * DIM} \<inter> {2 * DIM..<3 * DIM} = {}"
proof -
  have "\<exists>g'. test_comparison DIM hw L g = Some (0, g') \<and>
                 rocc g' = rocc g @ Flush 0 # gemmini_protocol DIM"
    using test_comparison_returns [OF assms, of DIM L g] by blast
  moreover have "scratchpad_regions DIM (gemmini_protocol DIM) =
             [{0..<DIM}, {DIM..<2 * DIM}, {2 * DIM..<3 * DIM}]"
  proof -
    have "0 + DIM = DIM" "DIM + DIM = 2 * DIM" "2 * DIM + DIM = 3 * DIM" by simp_all
    then show ?thesis
      by (simp only: scratchpad_regions_def gemmini_protocol_def List.map_filter_simps
          region_of.simps option.simps)
  qed
  moreover have "{0..<DIM} \<inter> {DIM..<2 * DIM} = {}" "{0..<DIM} \<inter> {2 * DIM..<3 * DIM} = {}"
    "{DIM..<2 * DIM} \<inter> {2 * DIM..<3 * DIM} = {}"
    by auto
  ultimately show ?thesis
    by (simp add: rocc_test_gemmini_matmul rocc_test_performance_comparison
        rocc_test_gemmini_performance) (simp add: gemmini_protocol_def)
qed

theorem gemmini_protocol_order_and_regions_witness:
  "rocc (snd (test_gemmini_matmul 16 (platform ticking ideal_matmul) (boot 16))) =
     [Flush 0, Config_ld 16, Config_st 16, Mvin Mat_A 0, Mvin Mat_B 16,
      Config_ex OUTPUT_STATIONARY 0 0, Preload_zeros 32,
      Compute_preloaded 0 16, Mvout Mat_C 32, Fence]
   \<and> scratchpad_regions 16 (rocc (snd (test_gemmini_matmul 16 (platform ticking ideal_matmul) (boot 16)))) =
     [{0..<16}, {16..<32}, {32..<48}]"
proof -
  note th = gemmini_protocol_order_and_regions [OF grants_progress_platform,
      where clock1 = ticking and array1 = ideal_matmul and DIM = 16 and g = "boot 16"
        and L = example_layout]
  have "rocc (boot 16) = []" by (simp add: boot_def)
  with th have "rocc (snd (test_gemmini_matmul 16 (platform ticking ideal_matmul) (boot 16))) =
      Flush 0 # gemmini_protocol 16" by simp
  moreover from th have "gemmini_protocol 16 =
      [Config_ld 16, Config_st 16, Mvin Mat_A 0, Mvin Mat_B 16,
       Config_ex OUTPUT_STATIONARY 0 0, Preload_zeros (2 * 16),
       Compute_preloaded 0 16, Mvout Mat_C (2 * 16), Fence]" by blast
  ultimately show ?thesis
    by (simp add: scratchpad_regions_def List.map_filter_simps)
qed

text \<open>
  C5, as the code has it: in \<^verbatim>\<open>ara_gemmini_compare.c\<close> the exit code is the bitwise OR of
  the results of the three test functions, and each of them returns 0 on every path, so the
  exit code is 0 whatever the verification found; Gemmini mismatches only select the
  warning message.
\<close>

theorem main_compare_always_exits_zero:
  "fst (test_scalar_matmul hw L g) = 0
   \<and> fst (test_gemmini_matmul DIM hw g) = 0
   \<and> fst (test_performance_comparison DIM hw L g) = 0
   \<and> fst (main_compare DIM hw L g) = 0"
  by (simp add: fst_test_scalar_matmul fst_test_gemmini_matmul fst_test_performance_comparison
      main_compare_exit)

theorem main_compare_always_exits_zero_witness:
  "fst (main_compare 16 (platform ticking ideal_matmul) example_layout (boot 16)) = 0"
  using main_compare_always_exits_zero [of "platform ticking ideal_matmul" example_layout "boot 16" 16]
  by simp

text \<open>
  C5 as stated says that the exit code is non-zero whenever a phase records verification
  mismatches. With an accelerator that delivers an all-zero tile at \<open>DIM = 16\<close>, the
  Gemmini test prints its mismatch warning and the program exits with code 0.
\<close>

theorem main_compare_exit_counterexample:
  "Mismatch_warning \<in> set (console (snd (main_compare 16 (platform ticking zero_matmul)
       example_layout (boot 16))))
   \<and> fst (main_compare 16 (platform ticking zero_matmul) example_layout (boot 16)) = 0"
  using zero_tile_mismatches by (simp add: main_compare_warning main_compare_exit)

text \<open>
  C6, as the code has it: the speedup is computed by an unguarded unsigned 64-bit division
  of the scalar cycle delta by the accelerated cycle delta. When the accelerated delta is
  not zero the report carries the integer quotient (and, for SAXPY, the tenths digit
  \<open>(scalar * 10 / accelerated) mod 10\<close>); when it is zero the division by zero is performed
  and nothing is substituted for its result.
\<close>

theorem speedup_division_unguarded:
  assumes "grants_progress (hw_vsetvli hw)"
  shows "last (console (snd (test_performance_comparison DIM hw L g))) =
           Speedup
             (if hw_mcycle hw (mcycle_reads g + 3) - hw_mcycle hw (mcycle_reads g + 2) = 0
              then Inl DivisionByZero
              else Inr ((hw_mcycle hw (mcycle_reads g + 1) - hw_mcycle hw (mcycle_reads g)) div
                        (hw_mcycle hw (mcycle_reads g + 3) - hw_mcycle hw (mcycle_reads g + 2))))
       \<and> (\<exists>g'. test_comparison DIM hw L g = Some (0, g') \<and>
             last (console g') =
               Speedup
                 (if hw_mcycle hw (mcycle_reads g + 7) - hw_mcycle hw (mcycle_reads g + 6) = 0
                  then Inl DivisionByZero
                  else Inr ((hw_mcycle hw (mcycle_reads g + 5) - hw_mcycle hw (mcycle_reads g + 4)) div
                            (hw_mcycle hw (mcycle_reads g + 7) - hw_mcycle hw (mcycle_reads g + 6)))) \<and>
             Speedup_tenths
               (if hw_mcycle hw (mcycle_reads g + 3) - hw_mcycle hw (mcycle_reads g + 2) = 0
                then Inl DivisionByZero
                else Inr ((hw_mcycle hw (mcycle_reads g + 1) - hw_mcycle hw (mcycle_reads g)) div
                          (hw_mcycle hw (mcycle_reads g + 3) - hw_mcycle hw (mcycle_reads g + 2))))
               (if hw_mcycle hw (mcycle_reads g + 3) - hw_mcycle hw (mcycle_reads g + 2) = 0
                then Inl DivisionByZero
                else Inr ((hw_mcycle hw (mcycle_reads g + 1) - hw_mcycle hw (mcycle_reads g)) * 10 div
                          (hw_mcycle hw (mcycle_reads g + 3) - hw_mcycle hw (mcycle_reads g + 2)) mod 10))
               \<in> set (console g'))"
proof -
  obtain g' where g': "test_comparison DIM hw L g = Some (0, g')"
    and c: "console g' = console g @
             [Cycles (hw_mcycle hw (mcycle_reads g + 1) - hw_mcycle hw (mcycle_reads g)),
              Cycles (hw_mcycle hw (mcycle_reads g + 3) - hw_mcycle hw (mcycle_reads g + 2)),
              Speedup_tenths
                (udiv64 (hw_mcycle hw (mcycle_reads g + 1) - hw_mcycle hw (mcycle_reads g))
                   (hw_mcycle hw (mcycle_reads g + 3) - hw_mcycle hw (mcycle_reads g + 2)))
                (umod64
                   (udiv64 ((hw_mcycle hw (mcycle_reads g + 1) - hw_mcycle hw (mcycle_reads g)) * 10)
                      (hw_mcycle hw (mcycle_reads g + 3) - hw_mcycle hw (mcycle_reads g + 2)))
                   10),
              Cycles (hw_mcycle hw (mcycle_reads g + 5) - hw_mcycle hw (mcycle_reads g + 4)),
              Cycles (hw_mcycle hw (mcycle_reads g + 7) - hw_mcycle hw (mcycle_reads g + 6)),
              Speedup
                (udiv64 (hw_mcycle hw (mcycle_reads g + 5) - hw_mcycle hw (mcycle_reads g + 4))
                   (hw_mcycle hw (mcycle_reads g + 7) - hw_mcycle hw (mcycle_reads g + 6)))]"
    using test_comparison_returns [OF assms, of DIM L g] by blast
  show ?thesis
    by (simp add: console_test_performance_comparison g' c udiv64_def umod64_def)
qed

theorem speedup_division_unguarded_witness:
  "last (console (snd (test_performance_comparison 16 (platform ticking ideal_matmul)
      example_layout (boot 16)))) = Speedup (Inr 1)"
proof -
  have "mcycle_reads (boot 16) = 0" by (simp add: boot_def)
  then show ?thesis
    using speedup_division_unguarded [OF grants_progress_platform,
      where clock1 = ticking and array1 = ideal_matmul and DIM = 16 and g = "boot 16"
        and L = example_layout]
    by (simp add: platform_def ticking_def)
qed

text \<open>
  C6 as stated says that a zero cycle delta of the accelerated phase yields a defined
  sentinel instead of a division by zero. On a platform whose cycle counter does not
  advance, the speedup line of \<open>test_performance_comparison\<close> is the result of dividing by
  zero.
\<close>

theorem speedup_zero_denominator_counterexample:
  "last (console (snd (test_performance_comparison 16 (platform frozen ideal_matmul)
      example_layout (boot 16)))) = Speedup (Inl DivisionByZero)"
  by (simp add: console_test_performance_comparison platform_def frozen_def udiv64_def)

lemma read_csr_mcycle_array:
  "read_csr_mcycle (hw\<lparr>hw_matmul := array\<rparr>) = read_csr_mcycle hw"
  "hw_vsetvli (hw\<lparr>hw_matmul := array\<rparr>) = hw_vsetvli hw"
  "hw_vector_result (hw\<lparr>hw_matmul := array\<rparr>) = hw_vector_result hw"
  by (simp_all add: read_csr_mcycle_def fun_eq_iff)

lemma test_ara_performance_array:
  "test_ara_performance (hw\<lparr>hw_matmul := array\<rparr>) L g = test_ara_performance hw L g"
  by (simp only: test_ara_performance_def read_csr_mcycle_array)

lemma test_scalar_performance_array:
  "test_scalar_performance (hw\<lparr>hw_matmul := array\<rparr>) L g = test_scalar_performance hw L g"
  by (simp only: test_scalar_performance_def read_csr_mcycle_array)

lemma vectors_apart_example: "vectors_apart example_layout"
  by (simp add: vectors_apart_def apart_def example_layout_def VEC_LEN_def)

text \<open>
  C9: in \<^verbatim>\<open>ara_gemmini_scalar_compare.c\<close>, on a vector unit that grants progress, the
  program returns and its exit code is the result of \<open>test_ara_performance\<close>. That
  function, entered in any state, runs the vector kernel on the store it prepared
  (\<^verbatim>\<open>vec_x\<close> and \<^verbatim>\<open>vec_y\<close> generated, \<^verbatim>\<open>vec_ref\<close> the scalar SAXPY of the same
  data when the arrays do not overlap), leaves in memory what the vector unit delivered, and
  returns 1 exactly when in that memory some \<open>vec_y[i]\<close> differs from \<open>vec_ref[i]\<close>, and
  0 otherwise. \<open>test_scalar_performance\<close>, \<open>test_gemmini_performance\<close> and
  \<open>test_comparison\<close> return 0 from every state, and the exit code does not depend on what
  the systolic array delivers.
\<close>

theorem exit_code_tracks_ara_verification_only:
  assumes "grants_progress (hw_vsetvli hw)"
  shows "(\<exists>ra ga gf.
           test_ara_performance hw L (snd (test_scalar_performance hw L g)) = Some (ra, ga) \<and>
           main_scalar_compare DIM hw L g = Some (ra, gf))
       \<and> (\<exists>m ga.
           ara_vector_saxpy (hw_vsetvli hw) 3 (vec_x L) (vec_y L) VEC_LEN
             (ara_test_store L (mem g0)) = Some m \<and>
           test_ara_performance hw L g0 =
             Some (if \<exists>i<VEC_LEN. hw_vector_result hw m (vec_y L + i) \<noteq>
                                    hw_vector_result hw m (vec_ref L + i)
                   then 1 else 0, ga) \<and>
           mem ga = hw_vector_result hw m)
       \<and> (vectors_apart L \<longrightarrow>
            (\<forall>i<VEC_LEN.
               ara_test_store L m0 (vec_x L + i) = init_vector_cell 0xABCD i \<and>
               ara_test_store L m0 (vec_y L + i) = init_vector_cell 0x1234 i \<and>
               ara_test_store L m0 (vec_ref L + i) =
                 3 * init_vector_cell 0xABCD i + init_vector_cell 0x1234 i))
       \<and> fst (test_scalar_performance hw L g1) = 0
       \<and> fst (test_gemmini_performance DIM hw g2) = 0
       \<and> (\<exists>g'. test_comparison DIM hw L g3 = Some (0, g'))
       \<and> map_option fst (main_scalar_compare DIM (hw\<lparr>hw_matmul := array\<rparr>) L g) =
           map_option fst (main_scalar_compare DIM hw L g)"
proof -
  let ?hw = "hw\<lparr>hw_matmul := array\<rparr>"
  have gp: "grants_progress (hw_vsetvli ?hw)" using assms by simp
  obtain ra ga gf where a: "test_ara_performance hw L (snd (test_scalar_performance hw L g)) = Some (ra, ga)"
    and m: "main_scalar_compare DIM hw L g = Some (ra, gf)"
    using main_scalar_compare_returns [OF assms, of L g DIM] by blast
  obtain ra' ga' gf' where
    a': "test_ara_performance ?hw L (snd (test_scalar_performance ?hw L g)) = Some (ra', ga')"
    and m': "main_scalar_compare DIM ?hw L g = Some (ra', gf')"
    using main_scalar_compare_returns [OF gp, of L g DIM] by blast
  from a a' have "ra' = ra"
    by (simp add: test_ara_performance_array test_scalar_performance_array)
  with m m' have ind: "map_option fst (main_scalar_compare DIM ?hw L g) =
      map_option fst (main_scalar_compare DIM hw L g)" by simp
  have cmp: "\<exists>g'. test_comparison DIM hw L g3 = Some (0, g')"
    using test_comparison_returns [OF assms, of DIM L g3] by blast
  have cells: "vectors_apart L \<longrightarrow>
            (\<forall>i<VEC_LEN.
               ara_test_store L m0 (vec_x L + i) = init_vector_cell 0xABCD i \<and>
               ara_test_store L m0 (vec_y L + i) = init_vector_cell 0x1234 i \<and>
               ara_test_store L m0 (vec_ref L + i) =
                 3 * init_vector_cell 0xABCD i + init_vector_cell 0x1234 i)"
    by (simp add: ara_test_store_cells)
  have main: "\<exists>ra ga gf.
           test_ara_performance hw L (snd (test_scalar_performance hw L g)) = Some (ra, ga) \<and>
           main_scalar_compare DIM hw L g = Some (ra, gf)"
    using a m by blast
  show ?thesis
    using main test_ara_performance_eq [OF assms, of L g0] cells cmp ind
      fst_test_scalar_performance [of hw L g1] fst_test_gemmini_performance [of DIM hw g2]
    by (intro conjI)
qed

text \<open>
  Two runs from the boot state, both with an accelerator whose tile mismatches the
  reference: with a vector unit that loses the store to \<open>vec_y[0]\<close> the exit code is 1,
  with a conforming vector unit it is 0.
\<close>

theorem exit_code_tracks_ara_verification_only_witness:
  "map_option fst (main_scalar_compare 16
       ((platform ticking zero_matmul)\<lparr>hw_vector_result := lossy_vector_store\<rparr>)
       example_layout (boot 16)) = Some 1
   \<and> map_option fst (main_scalar_compare 16 (platform ticking zero_matmul)
       example_layout (boot 16)) = Some 0"
proof -
  let ?L = "example_layout"
  have exit: "map_option fst (main_scalar_compare 16 hw ?L (boot 16)) =
      Some (if \<exists>i<VEC_LEN. hw_vector_result hw m (vec_y ?L + i) \<noteq>
                             hw_vector_result hw m (vec_ref ?L + i) then 1 else 0)"
    if gp: "grants_progress (hw_vsetvli hw)"
      and k: "ara_vector_saxpy (hw_vsetvli hw) 3 (vec_x ?L) (vec_y ?L) VEC_LEN
          (ara_test_store ?L (mem (snd (test_scalar_performance hw ?L (boot 16))))) = Some m"
    for hw m
  proof -
    note th = exit_code_tracks_ara_verification_only [OF gp,
        where L = ?L and g = "boot 16" and DIM = 16
          and ?g0.0 = "snd (test_scalar_performance hw ?L (boot 16))"]
    from th obtain ra ga gf where
      a: "test_ara_performance hw ?L (snd (test_scalar_performance hw ?L (boot 16))) = Some (ra, ga)"
      and mn: "main_scalar_compare 16 hw ?L (boot 16) = Some (ra, gf)"
      by blast
    from th obtain m' ga' where
      k': "ara_vector_saxpy (hw_vsetvli hw) 3 (vec_x ?L) (vec_y ?L) VEC_LEN
          (ara_test_store ?L (mem (snd (test_scalar_performance hw ?L (boot 16))))) = Some m'"
      and t: "test_ara_performance hw ?L (snd (test_scalar_performance hw ?L (boot 16))) =
          Some (if \<exists>i<VEC_LEN. hw_vector_result hw m' (vec_y ?L + i) \<noteq>
                                 hw_vector_result hw m' (vec_ref ?L + i) then 1 else 0, ga')"
      by blast
    from k k' have "m' = m" by simp
    with a t have "ra = (if \<exists>i<VEC_LEN. hw_vector_result hw m (vec_y ?L + i) \<noteq>
                             hw_vector_result hw m (vec_ref ?L + i) then 1 else 0)"
      by simp
    with mn show ?thesis by simp
  qed
  have kernel: "\<exists>m. ara_vector_saxpy (hw_vsetvli hw) 3 (vec_x ?L) (vec_y ?L) VEC_LEN
          (ara_test_store ?L (mem (snd (test_scalar_performance hw ?L (boot 16))))) = Some m \<and>
        (\<forall>i<VEC_LEN. m (vec_y ?L + i) = 3 * init_vector_cell 0xABCD i + init_vector_cell 0x1234 i \<and>
                     m (vec_ref ?L + i) = 3 * init_vector_cell 0xABCD i + init_vector_cell 0x1234 i)"
    if "grants_progress (hw_vsetvli hw)" for hw
    using that vectors_apart_example by (rule ara_kernel_on_test_store)
  let ?good = "platform ticking zero_matmul"
  let ?bad = "(platform ticking zero_matmul)\<lparr>hw_vector_result := lossy_vector_store\<rparr>"
  have gp_good: "grants_progress (hw_vsetvli ?good)" by (rule grants_progress_platform)
  have gp_bad: "grants_progress (hw_vsetvli ?bad)" using gp_good by simp
  obtain m where m: "ara_vector_saxpy (hw_vsetvli ?good) 3 (vec_x ?L) (vec_y ?L) VEC_LEN
          (ara_test_store ?L (mem (snd (test_scalar_performance ?good ?L (boot 16))))) = Some m"
    and c: "\<forall>i<VEC_LEN. m (vec_y ?L + i) = 3 * init_vector_cell 0xABCD i + init_vector_cell 0x1234 i \<and>
                     m (vec_ref ?L + i) = 3 * init_vector_cell 0xABCD i + init_vector_cell 0x1234 i"
    using kernel [OF gp_good] by blast
  have id: "hw_vector_result ?good = (\<lambda>m. m)" by (simp add: platform_def)
  from c have "\<not> (\<exists>i<VEC_LEN. m (vec_y ?L + i) \<noteq> m (vec_ref ?L + i))" by simp
  then have good: "map_option fst (main_scalar_compare 16 ?good ?L (boot 16)) = Some 0"
    using exit [OF gp_good m] by (simp only: id if_False)
  obtain n where n: "ara_vector_saxpy (hw_vsetvli ?bad) 3 (vec_x ?L) (vec_y ?L) VEC_LEN
          (ara_test_store ?L (mem (snd (test_scalar_performance ?bad ?L (boot 16))))) = Some n"
    and d: "\<forall>i<VEC_LEN. n (vec_y ?L + i) = 3 * init_vector_cell 0xABCD i + init_vector_cell 0x1234 i \<and>
                     n (vec_ref ?L + i) = 3 * init_vector_cell 0xABCD i + init_vector_cell 0x1234 i"
    using kernel [OF gp_bad] by blast
  have "0 < VEC_LEN" by (simp add: VEC_LEN_def)
  with d have "n (vec_ref ?L + 0) = 3 * init_vector_cell 0xABCD 0 + init_vector_cell 0x1234 0"
    by blast
  then have r0: "lossy_vector_store n (vec_ref ?L + 0) = 103"
    by (simp add: lossy_vector_store_def example_layout_def init_vector_cell_def)
  have y0: "lossy_vector_store n (vec_y ?L + 0) = 0"
    by (simp add: lossy_vector_store_def)
  from r0 y0 have "\<exists>i<VEC_LEN. lossy_vector_store n (vec_y ?L + i) \<noteq>
      lossy_vector_store n (vec_ref ?L + i)"
    using \<open>0 < VEC_LEN\<close> by (intro exI [of _ 0]) simp
  then have "map_option fst (main_scalar_compare 16 ?bad ?L (boot 16)) = Some 1"
    using exit [OF gp_bad n] by simp
  with good show ?thesis by simp
qed

end
